(* ===== verification/Prelude.thy ===== *)
theory Prelude
  imports Main "HOL-Library.Sublist" "HOL-Library.Sorting_Algorithms" "HOL-Library.List_Lexorder"
    "HOL-Library.Char_ord"
begin

text \<open>
  Shared vocabulary of the development: the errors a run of the tool can raise, the
  names of the model's basic types, the two JavaScript primitives every component
  uses (\<open>Array.prototype.indexOf\<close> and a prefix test on strings), and the list
  lemmas the component proofs share. The collection \<open>js_simps\<close> gathers the
  evaluation rules of the modelled JavaScript built-ins, so that a component proof
  can say \<open>simp add: js_simps\<close>.
\<close>

named_theorems js_simps "evaluation rules of the modelled JavaScript built-ins"

section \<open>Types and errors\<close>

type_synonym path = string
type_synonym text_content = string

text \<open>
  Every exception the source can raise and that escapes its function is a value of
  \<open>error\<close>: a file that cannot be read (\<open>fs.readFileSync\<close>), a manifest that is
  not JSON (\<open>JSON.parse\<close>), a property read on \<open>null\<close>, and a network failure of
  the synchronous HTTP request. The string carries what the exception names.
\<close>

datatype error =
    ReadError path
  | SyntaxError
  | TypeError string
  | NetworkError string

section \<open>Module references\<close>

text \<open>
  The objects \<open>{name, dev}\<close> the code builds for every module it finds or reads
  (lines 19 to 26 and 40): the module's name and whether it belongs to the
  development context (a test file, or the \<open>devDependencies\<close> section).
\<close>

record module_ref =
  name :: string
  dev :: bool

section \<open>Files\<close>

text \<open>
  The project directory as the code sees it: its entries, each with its path relative
  to the working directory, and the order \<open>glob\<close> sorts names in. An entry is a
  file with its text, a directory, or a file the process may not read.
  \<open>fs.readFileSync(p, 'utf8')\<close> returns the text of a file and throws on anything
  else (\<open>ENOENT\<close>, \<open>EISDIR\<close>, \<open>EACCES\<close>); \<open>readFile\<close> (lines 124 to 127) is
  that call. The collation \<open>alphasort\<close> is \<open>localeCompare(_, 'en')\<close> of the
  running engine, which the model leaves open: any comparator.
\<close>

datatype fs_entry = File text_content | Dir | Unreadable

record filesystem =
  entries :: "(path \<times> fs_entry) list"
  alphasort :: "path comparator"

definition file_text :: "filesystem \<Rightarrow> path \<Rightarrow> text_content option" where
  "file_text fs p = (case map_of (entries fs) p of Some (File c) \<Rightarrow> Some c | _ \<Rightarrow> None)"

definition read_file_sync :: "filesystem \<Rightarrow> path \<Rightarrow> error + text_content" where
  "read_file_sync fs p = (case file_text fs p of Some c \<Rightarrow> Inr c | None \<Rightarrow> Inl (ReadError p))"

text \<open>
  A project of readable files only, whose names \<open>glob\<close> sorts by code point: the
  shape of the concrete scenarios below.
\<close>

definition project_files :: "(path \<times> text_content) list \<Rightarrow> filesystem" where
  "project_files fs = \<lparr>entries = map (\<lambda>(p, c). (p, File c)) fs, alphasort = default\<rparr>"

definition readFile :: "filesystem \<Rightarrow> path \<Rightarrow> error + text_content" where
  "readFile fs p = read_file_sync fs p"

section \<open>Array.prototype.indexOf\<close>

text \<open>
  \<open>xs.indexOf(x)\<close>: the first index at which \<open>x\<close> occurs (strict equality),
  or \<open>-1\<close>.
\<close>

fun js_array_index_of :: "'a list \<Rightarrow> 'a \<Rightarrow> int" where
  "js_array_index_of [] x = -1"
| "js_array_index_of (y # ys) x =
     (if y = x then 0
      else (let i = js_array_index_of ys x in if i < 0 then -1 else i + 1))"

lemma js_array_index_of_neg_iff [simp]:
  "js_array_index_of xs x < 0 \<longleftrightarrow> x \<notin> set xs"
  by (induction xs) (auto simp: Let_def)

lemma js_array_index_of_range:
  "js_array_index_of xs x = -1 \<or> (0 \<le> js_array_index_of xs x \<and> js_array_index_of xs x < int (length xs))"
  by (induction xs) (auto simp: Let_def)

lemma js_array_index_of_minus_one_iff [simp]:
  "js_array_index_of xs x = -1 \<longleftrightarrow> x \<notin> set xs"
  using js_array_index_of_range [of xs x] js_array_index_of_neg_iff [of xs x] by fastforce

lemma js_array_index_of_nth:
  "x \<in> set xs \<Longrightarrow> xs ! nat (js_array_index_of xs x) = x \<and>
     (\<forall>j < nat (js_array_index_of xs x). xs ! j \<noteq> x)"
proof (induction xs)
  case Nil
  then show ?case by simp
next
  case (Cons y ys)
  show ?case
  proof (cases "y = x")
    case True
    then show ?thesis by simp
  next
    case False
    with Cons.prems have "x \<in> set ys" by simp
    moreover have "0 \<le> js_array_index_of ys x"
      using \<open>x \<in> set ys\<close> js_array_index_of_neg_iff [of ys x] by linarith
    ultimately show ?thesis
      using Cons.IH False
      by (auto simp: Let_def nat_add_distrib less_Suc_eq_0_disj)
  qed
qed

section \<open>Prefixes of strings\<close>

text \<open>
  An executable prefix test; \<open>starts_with p s\<close> is \<open>prefix p s\<close> of
  \<open>HOL-Library.Sublist\<close> (lemma \<open>starts_with_prefix\<close>), but it evaluates by
  \<open>simp\<close> on literals.
\<close>

fun starts_with :: "'a list \<Rightarrow> 'a list \<Rightarrow> bool" where
  "starts_with [] s = True"
| "starts_with (c # cs) [] = False"
| "starts_with (c # cs) (d # ds) = (c = d \<and> starts_with cs ds)"

lemma starts_with_Nil_iff [simp]: "starts_with p [] \<longleftrightarrow> p = []"
  by (cases p) auto

lemma starts_with_prefix: "starts_with p s \<longleftrightarrow> prefix p s"
  by (induction p s rule: starts_with.induct) auto

lemma starts_with_take: "starts_with p s \<longleftrightarrow> take (length p) s = p"
  by (induction p s rule: starts_with.induct) auto

lemma starts_with_append [simp]: "starts_with p (p @ s)"
  by (induction p) auto

lemma starts_with_append_iff:
  "length p \<le> length s \<Longrightarrow> starts_with p (s @ t) \<longleftrightarrow> starts_with p s"
  by (simp add: starts_with_take)

lemma starts_with_length: "starts_with p s \<Longrightarrow> length p \<le> length s"
  by (induction p s rule: starts_with.induct) auto

section \<open>Shared list lemmas\<close>

lemma filter_filter_comm: "filter P (filter Q xs) = filter Q (filter P xs)"
  by (induction xs) auto

lemma subseq_filter_self [intro]: "subseq (filter P xs) xs"
  by (induction xs) auto

lemma distinct_sort_iff [simp]: "distinct (Sorting_Algorithms.sort cmp xs) \<longleftrightarrow> distinct xs"
  by (rule mset_eq_imp_distinct_iff) simp

text \<open>
  With a comparator that ranks no two distinct elements of the list equal (it may rank
  other values equal), sorting forgets the order of a list without repetitions: two
  such lists with the same elements sort alike.
\<close>

lemma distinct_set_singleton: "distinct xs \<Longrightarrow> set xs = {a} \<Longrightarrow> xs = [a]"
  by (metis distinct.simps(2) singleton_iff neq_Nil_conv list.set_cases distinct_length_2_or_more)

text \<open>A filter that at most one element of the list passes.\<close>

lemma filter_eq_if_unique:
  assumes "distinct xs" and "distinct ys" and "set xs = set ys"
    and uniq: "\<And>a b. a \<in> set xs \<Longrightarrow> b \<in> set xs \<Longrightarrow> P a \<Longrightarrow> P b \<Longrightarrow> a = b"
  shows "filter P ys = filter P xs"
proof (cases "filter P xs")
  case Nil
  with assms(3) show ?thesis by (simp add: filter_empty_conv)
next
  case (Cons a rest)
  have "rest = []"
  proof (rule ccontr)
    assume "rest \<noteq> []"
    then obtain b rest' where "filter P xs = a # b # rest'" using Cons by (cases rest) auto
    moreover have "a \<in> set (filter P xs)" "b \<in> set (filter P xs)" by (simp_all add: calculation)
    moreover from assms(1) have "distinct (filter P xs)" by simp
    ultimately show False using uniq by (metis distinct_length_2_or_more mem_Collect_eq set_filter)
  qed
  with Cons assms(3) have "set (filter P ys) = {a}" by (metis set_filter empty_set list.simps(15))
  with assms(2) have "filter P ys = [a]" by (simp add: distinct_set_singleton)
  with Cons \<open>rest = []\<close> show ?thesis by simp
qed

lemma sort_eq_if_antisym_on:
  assumes antisym: "\<And>p q. p \<in> set xs \<Longrightarrow> q \<in> set xs \<Longrightarrow> compare cmp p q = Equiv \<Longrightarrow> p = q"
    and "distinct xs" and "distinct ys" and "set xs = set ys"
  shows "Sorting_Algorithms.sort cmp ys = Sorting_Algorithms.sort cmp xs"
proof (rule sort_eqI)
  from assms(2-4) show "mset ys = mset (Sorting_Algorithms.sort cmp xs)"
    by (simp add: set_eq_iff_mset_eq_distinct)
  show "Sorting_Algorithms.sorted cmp (Sorting_Algorithms.sort cmp xs)" by simp
  fix y
  have uniq: "a = b" if "a \<in> set xs" "b \<in> set xs" "compare cmp y a = Equiv" "compare cmp y b = Equiv" for a b
  proof -
    from that(3,4) have "compare cmp a b = Equiv" by (metis compare.sym compare.trans_equiv)
    with that(1,2) show ?thesis by (rule antisym)
  qed
  have "filter (\<lambda>z. compare cmp y z = Equiv) ys = filter (\<lambda>z. compare cmp y z = Equiv) xs"
    using assms(2-4) uniq by (rule filter_eq_if_unique)
  also have "\<dots> = filter (\<lambda>z. compare cmp y z = Equiv) (Sorting_Algorithms.sort cmp xs)"
    by (rule stable_sort [symmetric])
  finally show "filter (\<lambda>z. compare cmp y z = Equiv) ys
      = filter (\<lambda>z. compare cmp y z = Equiv) (Sorting_Algorithms.sort cmp xs)" .
qed
text \<open>Module lists without a repeated \<open>(name, dev)\<close> pair hold a name at most twice.\<close>

lemma distinct_map_by:
  "distinct (map g xs) \<Longrightarrow> (\<And>x y. x \<in> set xs \<Longrightarrow> y \<in> set xs \<Longrightarrow> f x = f y \<Longrightarrow> g x = g y) \<Longrightarrow> distinct (map f xs)"
  unfolding distinct_map inj_on_def by blast

lemma name_count_le_2:
  assumes "distinct (map (\<lambda>m. (name m, dev m)) ms)"
  shows "length (filter (\<lambda>m. name m = n) ms) \<le> 2"
proof -
  let ?ys = "filter (\<lambda>m. name m = n) ms"
  have "distinct (map (\<lambda>m. (name m, dev m)) ?ys)" using assms by (simp add: distinct_map_filter)
  then have "distinct (map dev ?ys)" by (rule distinct_map_by) simp
  then have "length ?ys = card (set (map dev ?ys))" by (metis distinct_card length_map)
  also have "\<dots> \<le> card (UNIV :: bool set)" by (rule card_mono) simp_all
  finally show ?thesis by simp
qed

end
