(* ===== verification/JsString.thy ===== *)
theory JsString
  imports Prelude
begin

text \<open>
  The JavaScript values and string built-ins that \<open>src/helpers.js\<close> relies on,
  modelled after ECMAScript: values (\<open>jsval\<close>), property reads and object
  destructuring (\<open>js_get\<close>), \<open>ToString\<close> (\<open>js_to_string\<close>), truthiness, and the
  string methods \<open>substring\<close>, \<open>indexOf\<close>, \<open>replace\<close> with a string pattern and
  \<open>endsWith\<close>. Strings are byte lists (\<open>char\<close> is 8-bit); JavaScript counts
  UTF-16 code units, which agree with bytes on ASCII text, the only text the
  properties of this development are about.
\<close>

section \<open>Values\<close>

datatype jsval =
    JsUndefined
  | JsNull
  | JsBool bool
  | JsNumber int
  | JsString string
  | JsObject "(string \<times> jsval) list"

section \<open>Decimal numerals and array indices\<close>

fun decimal :: "nat \<Rightarrow> string" where
  "decimal n = (if n < 10 then [char_of (48 + n)]
                else decimal (n div 10) @ [char_of (48 + n mod 10)])"

declare decimal.simps [simp del]

definition is_digit :: "char \<Rightarrow> bool" where
  "is_digit c \<longleftrightarrow> 48 \<le> (of_char c :: nat) \<and> (of_char c :: nat) \<le> 57"

fun digits_value :: "string \<Rightarrow> nat" where
  "digits_value [] = 0"
| "digits_value (c # cs) = (of_char c - 48) * 10 ^ length cs + digits_value cs"

text \<open>
  A property key is an array index when it is the canonical decimal numeral of an
  integer below \<open>2\<^sup>3\<^sup>2 - 1\<close>: \<open>''0''\<close>, or digits without a leading zero.
  Such keys are enumerated first, in ascending order, by \<open>for-in\<close>.
\<close>

definition js_array_index :: "string \<Rightarrow> nat option" where
  "js_array_index s =
     (if s \<noteq> [] \<and> list_all is_digit s \<and> (s = ''0'' \<or> hd s \<noteq> CHR ''0'')
         \<and> digits_value s < 2 ^ 32 - 1
      then Some (digits_value s) else None)"

section \<open>ToString, truthiness, property reads\<close>

fun js_to_string :: "jsval \<Rightarrow> string" where
  "js_to_string JsUndefined = ''undefined''"
| "js_to_string JsNull = ''null''"
| "js_to_string (JsBool b) = (if b then ''true'' else ''false'')"
| "js_to_string (JsNumber i) =
     (if i < 0 then CHR ''-'' # decimal (nat (- i)) else decimal (nat i))"
| "js_to_string (JsString s) = s"
| "js_to_string (JsObject ps) = ''[object Object]''"

fun js_truthy :: "jsval \<Rightarrow> bool" where
  "js_truthy JsUndefined = False"
| "js_truthy JsNull = False"
| "js_truthy (JsBool b) = b"
| "js_truthy (JsNumber i) = (i \<noteq> 0)"
| "js_truthy (JsString s) = (s \<noteq> [])"
| "js_truthy (JsObject ps) = True"

text \<open>
  \<open>v.k\<close>, and the read that the destructuring parameter \<open>({name, dev}) => \<dots>\<close>
  performs for each of its names. Reading from \<open>undefined\<close> or \<open>null\<close> throws a
  \<open>TypeError\<close>. A string has its \<open>length\<close> and one property per index; the
  methods it inherits from \<open>String.prototype\<close> are not modelled, and none of the
  keys the code reads (\<open>name\<close>, \<open>dev\<close>, \<open>dependencies\<close>, \<open>downloads\<close>) is
  among them.
\<close>

fun js_get :: "jsval \<Rightarrow> string \<Rightarrow> error + jsval" where
  "js_get JsUndefined k = Inl (TypeError k)"
| "js_get JsNull k = Inl (TypeError k)"
| "js_get (JsString s) k =
     Inr (if k = ''length'' then JsNumber (int (length s))
          else (case js_array_index k of
                  Some i \<Rightarrow> if i < length s then JsString [s ! i] else JsUndefined
                | None \<Rightarrow> JsUndefined))"
| "js_get (JsObject ps) k = Inr (case map_of ps k of Some v \<Rightarrow> v | None \<Rightarrow> JsUndefined)"
| "js_get (JsBool b) k = Inr JsUndefined"
| "js_get (JsNumber i) k = Inr JsUndefined"

section \<open>String methods\<close>

text \<open>
  \<open>s.substring(a, b)\<close>: both arguments are clamped to \<open>[0, s.length]\<close> and
  swapped if the first is the larger. \<open>s.substring(a)\<close> takes \<open>b = s.length\<close>.
\<close>

definition js_substring :: "string \<Rightarrow> int \<Rightarrow> int \<Rightarrow> string" where
  "js_substring s a b =
     (let len = int (length s);
          fa = min (max a 0) len; fb = min (max b 0) len;
          lo = min fa fb; hi = max fa fb
      in take (nat (hi - lo)) (drop (nat lo) s))"

definition js_substring_from :: "string \<Rightarrow> int \<Rightarrow> string" where
  "js_substring_from s a = js_substring s a (int (length s))"

text \<open>\<open>s.indexOf(p)\<close>: the first position at which \<open>p\<close> occurs in \<open>s\<close>, or \<open>-1\<close>.\<close>

fun js_index_of :: "string \<Rightarrow> string \<Rightarrow> int" where
  "js_index_of [] p = (if p = [] then 0 else -1)"
| "js_index_of (c # cs) p =
     (if starts_with p (c # cs) then 0
      else (let i = js_index_of cs p in if i < 0 then -1 else i + 1))"

text \<open>
  \<open>s.replace(p, r)\<close> with a string pattern replaces the first occurrence of
  \<open>p\<close> only. The \<open>$\<close>-patterns of a replacement string are not interpreted here:
  the code's only replacement is the empty string, which has none.
\<close>

definition js_replace_first :: "string \<Rightarrow> string \<Rightarrow> string \<Rightarrow> string" where
  "js_replace_first s p r =
     (let i = js_index_of s p
      in if i < 0 then s else take (nat i) s @ r @ drop (nat i + length p) s)"

definition js_ends_with :: "string \<Rightarrow> string \<Rightarrow> bool" where
  "js_ends_with s t \<longleftrightarrow> starts_with (rev t) (rev s)"

section \<open>Lemmas\<close>

lemma js_substring_length_le: "length (js_substring s a b) \<le> length s"
  unfolding js_substring_def Let_def by (simp add: min_le_iff_disj)

lemma js_substring_nat:
  "a \<le> b \<Longrightarrow> b \<le> length s \<Longrightarrow> js_substring s (int a) (int b) = take (b - a) (drop a s)"
  by (simp add: js_substring_def Let_def nat_diff_distrib)

lemma js_substring_commute: "js_substring s a b = js_substring s b a"
  by (simp add: js_substring_def Let_def min.commute max.commute)

lemma js_substring_nonpos: "b \<le> 0 \<Longrightarrow> js_substring s 0 b = []"
  by (simp add: js_substring_def Let_def)

lemma js_substring_from_nat [simp]: "js_substring_from s (int k) = drop k s"
  by (simp add: js_substring_from_def js_substring_def Let_def min_def)

lemma js_substring_from_numeral [simp]: "js_substring_from s (numeral k) = drop (numeral k) s"
  using js_substring_from_nat [of s "numeral k"] by simp

lemma js_substring_prefix [simp]:
  "js_substring s 0 (int (length s) - 2) = take (length s - 2) s"
proof (cases "length s \<le> 2")
  case True
  then show ?thesis by (simp add: js_substring_def Let_def)
next
  case False
  then have "nat (int (length s) - 2) = length s - 2" by linarith
  with False show ?thesis by (simp add: js_substring_def Let_def min_def max_def)
qed

lemma js_index_of_zero_iff: "js_index_of s p = 0 \<longleftrightarrow> starts_with p s"
  by (cases s) (auto simp: Let_def split: if_splits)

lemma js_index_of_starts [simp]: "starts_with p s \<Longrightarrow> js_index_of s p = 0"
  by (simp add: js_index_of_zero_iff)

lemma js_replace_first_prefix:
  "starts_with p s \<Longrightarrow> js_replace_first s p r = r @ drop (length p) s"
  by (simp add: js_replace_first_def)

lemma js_ends_with_suffix: "js_ends_with s t \<longleftrightarrow> suffix t s"
  by (simp add: js_ends_with_def starts_with_prefix suffix_to_prefix)

lemma js_ends_with_append [simp]: "js_ends_with (s @ t) t"
  by (simp add: js_ends_with_suffix suffix_def)

lemmas [js_simps] = js_substring_from_nat js_substring_prefix js_replace_first_prefix
  js_index_of_starts js_ends_with_suffix

lemma decimal_simps:
  "n < 10 \<Longrightarrow> decimal n = [char_of (48 + n)]"
  "10 \<le> n \<Longrightarrow> decimal n = decimal (n div 10) @ [char_of (48 + n mod 10)]"
  by (simp_all add: decimal.simps [of n])

lemma char_of_digits [simp]:
  "char_of (48::nat) = CHR ''0''" "char_of (49::nat) = CHR ''1''" "char_of (50::nat) = CHR ''2''"
  "char_of (51::nat) = CHR ''3''" "char_of (52::nat) = CHR ''4''" "char_of (53::nat) = CHR ''5''"
  "char_of (54::nat) = CHR ''6''" "char_of (55::nat) = CHR ''7''" "char_of (56::nat) = CHR ''8''"
  "char_of (57::nat) = CHR ''9''"
  by code_simp+

lemma is_digit_char: "(k::nat) < 10 \<Longrightarrow> is_digit (char_of (48 + k))"
  by (simp add: is_digit_def)

lemma digits_value_snoc:
  "digits_value (xs @ [c]) = digits_value xs * 10 + (of_char c - 48)"
  by (induction xs) (simp_all add: algebra_simps)

lemma decimal_props:
  "decimal n \<noteq> [] \<and> list_all is_digit (decimal n) \<and> digits_value (decimal n) = n
   \<and> (hd (decimal n) = CHR ''0'' \<longrightarrow> n = 0)"
proof (induction n rule: decimal.induct)
  case (1 n)
  show ?case
  proof (cases "n < 10")
    case True
    have "hd (decimal n) = CHR ''0'' \<Longrightarrow> n = 0"
    proof -
      assume "hd (decimal n) = CHR ''0''"
      with True have "of_char (char_of (48 + n) :: char) = (of_char (CHR ''0'') :: nat)"
        by (simp add: decimal_simps)
      with True show "n = 0" by simp
    qed
    with True show ?thesis by (simp add: decimal_simps is_digit_char)
  next
    case False
    then have ih: "decimal (n div 10) \<noteq> [] \<and> list_all is_digit (decimal (n div 10))
        \<and> digits_value (decimal (n div 10)) = n div 10
        \<and> (hd (decimal (n div 10)) = CHR ''0'' \<longrightarrow> n div 10 = 0)"
      using "1.IH" by simp
    have "n div 10 * 10 + n mod 10 = n" by simp
    moreover from False have "n div 10 \<noteq> 0" by simp
    ultimately show ?thesis using False ih
      by (simp add: decimal_simps digits_value_snoc is_digit_char)
  qed
qed

lemma js_array_index_decimal:
  "n < 2 ^ 32 - 1 \<Longrightarrow> js_array_index (decimal n) = Some n"
proof -
  assume n: "n < 2 ^ 32 - 1"
  have "decimal n = ''0'' \<or> hd (decimal n) \<noteq> CHR ''0''"
  proof (cases "n = 0")
    case True
    then show ?thesis by (simp add: decimal_simps)
  next
    case False
    then show ?thesis using decimal_props [of n] by blast
  qed
  with n decimal_props [of n] show ?thesis by (simp add: js_array_index_def)
qed

end
