(* ===== verification/RequireScan.thy ===== *)
theory RequireScan
  imports JsString
begin

text \<open>
  The two regular expressions of \<open>src/helpers.js\<close>, as the JavaScript engine runs
  them. \<open>require_matches\<close> is \<open>content.match(/require\((.*?)\)/g)\<close>
  (line 133 and 138): a global match scans from \<open>lastIndex\<close>, tries the pattern
  there, records the match and continues after it, or moves one position on when the
  pattern fails. The lazy \<open>.*?\<close> stops at the first \<open>)\<close> and cannot cross a
  line terminator. \<open>name_regex_test\<close> is \<open>/^([a-z0-9-_]{1,})$/.test\<close>
  (lines 153 and 154). The scan is a \<^theory_text>\<open>function\<close> whose termination is proved
  from the length of the rest of the text.
\<close>

section \<open>The module-reference pattern\<close>

definition is_line_terminator :: "char \<Rightarrow> bool" where
  "is_line_terminator c \<longleftrightarrow> of_char c = (10::nat) \<or> of_char c = (13::nat)"

text \<open>
  \<open>(.*?)\)\<close>: the shortest run of non-terminator characters followed by \<open>)\<close>;
  \<open>None\<close> when a line terminator or the end of the text comes first.
\<close>

fun lazy_until_paren :: "string \<Rightarrow> string option" where
  "lazy_until_paren [] = None"
| "lazy_until_paren (c # cs) =
     (if c = CHR '')'' then Some []
      else if is_line_terminator c then None
      else map_option (Cons c) (lazy_until_paren cs))"

abbreviation require_open :: string where
  "require_open \<equiv> ''require(''"

definition require_match_at :: "string \<Rightarrow> string option" where
  "require_match_at s =
     (if starts_with require_open s
      then map_option (\<lambda>a. require_open @ a @ '')'')
             (lazy_until_paren (drop (length require_open) s))
      else None)"

function require_matches :: "string \<Rightarrow> string list" where
  "require_matches [] = []"
| "require_matches (c # cs) =
     (case require_match_at (c # cs) of
        Some m \<Rightarrow> m # require_matches (drop (length m) (c # cs))
      | None \<Rightarrow> require_matches cs)"
  by pat_completeness auto
termination
proof (relation "measure length")
  fix c cs m
  assume "require_match_at (c # cs) = Some m"
  then have "m \<noteq> []" by (auto simp: require_match_at_def split: if_splits)
  then show "(drop (length m) (c # cs), c # cs) \<in> measure length" by simp
qed auto

text \<open>\<open>String.prototype.match\<close> with a global pattern: \<open>null\<close> when nothing matches.\<close>

definition js_match_require :: "string \<Rightarrow> string list option" where
  "js_match_require s = (let ms = require_matches s in if ms = [] then None else Some ms)"

section \<open>The module-name pattern\<close>

text \<open>
  \<open>[a-z0-9-_]\<close>: after the range \<open>0-9\<close> the dash is a literal, so the class holds the
  lower-case letters, the digits, \<open>-\<close> and \<open>_\<close>.
\<close>

definition name_char :: "char \<Rightarrow> bool" where
  "name_char c \<longleftrightarrow>
     (97 \<le> (of_char c :: nat) \<and> (of_char c :: nat) \<le> 122)
     \<or> (48 \<le> (of_char c :: nat) \<and> (of_char c :: nat) \<le> 57)
     \<or> c = CHR ''-'' \<or> c = CHR ''_''"

definition name_regex_test :: "string \<Rightarrow> bool" where
  "name_regex_test s \<longleftrightarrow> s \<noteq> [] \<and> list_all name_char s"

section \<open>Lemmas on the scan\<close>

lemma lazy_until_paren_Some:
  "lazy_until_paren s = Some a \<Longrightarrow>
     s = a @ CHR '')'' # drop (Suc (length a)) s \<and> CHR '')'' \<notin> set a
     \<and> \<not> list_ex is_line_terminator a"
  by (induction s arbitrary: a) (auto split: if_splits)

lemma lazy_until_paren_append:
  "CHR '')'' \<notin> set a \<Longrightarrow> \<not> list_ex is_line_terminator a \<Longrightarrow>
     lazy_until_paren (a @ CHR '')'' # rest) = Some a"
  by (induction a) auto

lemma require_match_at_Some:
  "require_match_at s = Some m \<Longrightarrow>
     \<exists>a. m = require_open @ a @ '')'' \<and> CHR '')'' \<notin> set a
       \<and> \<not> list_ex is_line_terminator a \<and> starts_with m s"
proof -
  let ?k = "length require_open"
  assume m: "require_match_at s = Some m"
  then have open_: "starts_with require_open s"
    by (simp add: require_match_at_def split: if_splits)
  from m obtain a where a: "lazy_until_paren (drop ?k s) = Some a"
    and ma: "m = require_open @ a @ '')''"
    by (auto simp: require_match_at_def split: if_splits)
  from lazy_until_paren_Some [OF a]
  have split: "drop ?k s = a @ CHR '')'' # drop (Suc (length a)) (drop ?k s)"
    and "CHR '')'' \<notin> set a" and "\<not> list_ex is_line_terminator a" by auto
  from open_ have "take ?k s = require_open" by (simp only: starts_with_take)
  then have "s = require_open @ drop ?k s" by (metis append_take_drop_id)
  with split have "s = m @ drop (Suc (length a)) (drop ?k s)"
    by (simp add: ma)
  then have "starts_with m s" by (metis starts_with_append)
  with ma \<open>CHR '')'' \<notin> set a\<close> \<open>\<not> list_ex is_line_terminator a\<close> show ?thesis
    by blast
qed

lemma require_matches_Some:
  "require_match_at s = Some m \<Longrightarrow> require_matches s = m # require_matches (drop (length m) s)"
  by (cases s) (auto simp: require_match_at_def)

lemma require_matches_None:
  "require_match_at (c # cs) = None \<Longrightarrow> require_matches (c # cs) = require_matches cs"
  by simp

lemma require_match_at_block:
  "CHR '')'' \<notin> set a \<Longrightarrow> \<not> list_ex is_line_terminator a \<Longrightarrow>
     require_match_at ((require_open @ a @ '')'') @ rest) = Some (require_open @ a @ '')'')"
  unfolding require_match_at_def by (simp add: lazy_until_paren_append)

lemma require_matches_block:
  assumes "CHR '')'' \<notin> set a" and "\<not> list_ex is_line_terminator a"
  shows "require_matches ((require_open @ a @ '')'') @ rest)
           = (require_open @ a @ '')'') # require_matches rest"
proof -
  let ?m = "require_open @ a @ '')''"
  have "require_matches (?m @ rest) = ?m # require_matches (drop (length ?m) (?m @ rest))"
    using require_match_at_block [OF assms] by (rule require_matches_Some)
  then show ?thesis by simp
qed

lemma starts_with_set: "starts_with p s \<Longrightarrow> set p \<subseteq> set s"
  by (induction p s rule: starts_with.induct) auto

lemma overlap_border:
  assumes "length x < length R" and "starts_with R (x @ R @ rest)"
  shows "take (length R - length x) R = drop (length x) R"
proof -
  from assms(2) have "take (length R) (x @ R @ rest) = R" by (simp only: starts_with_take)
  with assms(1) have "x @ take (length R - length x) R = R" by (simp add: take_append)
  then show ?thesis by (metis append_eq_conv_conj)
qed

lemma require_open_no_border:
  "0 < k \<Longrightarrow> k < length require_open \<Longrightarrow>
     take (length require_open - k) require_open \<noteq> drop k require_open"
proof -
  assume "0 < k" "k < length require_open"
  then have "k = 1 \<or> k = 2 \<or> k = 3 \<or> k = 4 \<or> k = 5 \<or> k = 6 \<or> k = 7" by simp arith
  then show ?thesis by auto
qed

lemma require_match_at_None:
  "\<not> starts_with require_open s \<Longrightarrow> require_match_at s = None"
  unfolding require_match_at_def by (rule if_not_P)

text \<open>
  Text without an opening parenthesis cannot hold the start of a match, not even one
  that would run on into a \<open>require(\<close> that follows it: the word has no border.
\<close>

lemma no_match_before_require:
  assumes "x \<noteq> []" and "CHR ''('' \<notin> set x"
  shows "\<not> starts_with require_open (x @ require_open @ rest)"
proof
  assume st: "starts_with require_open (x @ require_open @ rest)"
  show False
  proof (cases "length require_open \<le> length x")
    case True
    with st have "starts_with require_open x"
      using starts_with_append_iff [of require_open x "require_open @ rest"] by simp
    then have "set require_open \<subseteq> set x" by (rule starts_with_set)
    with assms(2) show False by simp
  next
    case False
    then have "take (length require_open - length x) require_open = drop (length x) require_open"
      using st by (intro overlap_border) simp_all
    moreover from assms(1) False have "0 < length x" "length x < length require_open"
      by simp_all
    ultimately show False using require_open_no_border by blast
  qed
qed

lemma require_matches_no_paren:
  "CHR ''('' \<notin> set x \<Longrightarrow> require_matches x = []"
proof (induction x)
  case Nil
  then show ?case by simp
next
  case (Cons c cs)
  have "\<not> starts_with require_open (c # cs)"
  proof
    assume "starts_with require_open (c # cs)"
    then have "set require_open \<subseteq> set (c # cs)" by (rule starts_with_set)
    with Cons.prems show False by simp
  qed
  then have "require_match_at (c # cs) = None" by (rule require_match_at_None)
  then have "require_matches (c # cs) = require_matches cs" by (rule require_matches_None)
  with Cons show ?case by simp
qed

lemma require_matches_skip:
  "CHR ''('' \<notin> set x \<Longrightarrow>
     require_matches (x @ require_open @ rest) = require_matches (require_open @ rest)"
proof (induction x)
  case Nil
  then show ?case by simp
next
  case (Cons c cs)
  from Cons.prems have "\<not> starts_with require_open ((c # cs) @ require_open @ rest)"
    by (intro no_match_before_require) simp_all
  then have "require_match_at ((c # cs) @ require_open @ rest) = None"
    by (rule require_match_at_None)
  then have "require_match_at (c # (cs @ require_open @ rest)) = None"
    by (metis append_Cons)
  then have "require_matches (c # (cs @ require_open @ rest))
      = require_matches (cs @ require_open @ rest)"
    by (rule require_matches_None)
  with Cons show ?case by simp
qed

text \<open>
  A text made of separators without an opening parenthesis and of well-formed
  references \<open>require(a)\<close> is matched reference by reference.
\<close>

lemma require_matches_render:
  assumes "\<forall>(sep, a) \<in> set xs. CHR ''('' \<notin> set sep \<and> CHR '')'' \<notin> set a
             \<and> \<not> list_ex is_line_terminator a"
    and "CHR ''('' \<notin> set tail"
  shows "require_matches (concat (map (\<lambda>(sep, a). sep @ require_open @ a @ '')'') xs) @ tail)
           = map (\<lambda>(sep, a). require_open @ a @ '')'') xs"
  using assms(1)
proof (induction xs)
  case Nil
  from assms(2) show ?case by (simp add: require_matches_no_paren)
next
  case (Cons x xs)
  obtain sep a where x: "x = (sep, a)" by fastforce
  let ?R = "concat (map (\<lambda>(sep, a). sep @ require_open @ a @ '')'') xs) @ tail"
  from Cons.prems x have sep: "CHR ''('' \<notin> set sep" and a1: "CHR '')'' \<notin> set a"
    and a2: "\<not> list_ex is_line_terminator a" by auto
  have "require_matches (sep @ require_open @ (a @ '')'' @ ?R))
      = require_matches (require_open @ (a @ '')'' @ ?R))"
    using sep by (rule require_matches_skip)
  also have "require_open @ (a @ '')'' @ ?R) = (require_open @ a @ '')'') @ ?R"
    by (simp only: append_assoc)
  also have "require_matches \<dots> = (require_open @ a @ '')'') # require_matches ?R"
    using a1 a2 by (rule require_matches_block)
  finally have "require_matches (sep @ require_open @ (a @ '')'' @ ?R))
      = (require_open @ a @ '')'') # require_matches ?R" by (simp only: append_assoc)
  moreover have "concat (map (\<lambda>(sep, a). sep @ require_open @ a @ '')'') (x # xs)) @ tail
      = sep @ require_open @ (a @ '')'' @ ?R)"
    by (simp only: x list.map concat.simps prod.case append_assoc)
  ultimately show ?case using Cons.IH Cons.prems x by simp
qed

end
