(* ===== verification/GlobalMatch.thy ===== *)
theory GlobalMatch
  imports RequireScan "HOL-Library.While_Combinator"
begin

text \<open>
  The loop the engine runs for \<open>content.match(pattern)\<close> (\<open>src/helpers.js\<close>,
  line 138) when \<open>pattern\<close> (line 133) has the global flag: the algorithm of
  \<open>RegExp.prototype[@@match]\<close>. It sets \<open>lastIndex\<close> to 0 and repeats
  \<open>RegExpBuiltinExec\<close>: search from \<open>lastIndex\<close> for the first position where the
  pattern matches, set \<open>lastIndex\<close> to the end of the match and append the matched
  text to the result array; an empty match moves \<open>lastIndex\<close> one further. The loop
  ends at the first failed search, which also resets \<open>lastIndex\<close> to 0; the call
  returns \<open>null\<close> when the array is empty.

  The loop is kept as a loop, with \<open>while_option\<close> over the state
  \<open>(lastIndex, array, go on)\<close>. The lemmas show that it always stops and
  computes the recursive scan \<open>js_match_require\<close> of \<open>RequireScan\<close>, and
  characterise its result by the text alone: \<open>null\<close> exactly when no
  \<open>require(\<close> is closed by a \<open>)\<close> on its line, and otherwise matches that are
  segments of the text, in order and without overlap, each stopping at the first
  \<open>)\<close> (the lazy group).
\<close>

section \<open>Definitions\<close>

text \<open>The search of \<open>RegExpBuiltinExec\<close>: the first match at or after position \<open>p\<close>.\<close>

fun regexp_search :: "string \<Rightarrow> nat \<Rightarrow> (nat \<times> string) option" where
  "regexp_search [] p = None"
| "regexp_search (c # cs) p =
     (case require_match_at (c # cs) of
        Some m \<Rightarrow> Some (p + length m, m)
      | None \<Rightarrow> regexp_search cs (Suc p))"

text \<open>\<open>RegExpBuiltinExec\<close>: \<open>null\<close> when \<open>lastIndex\<close> is past the end of the text.\<close>

definition regexp_exec :: "string \<Rightarrow> nat \<Rightarrow> (nat \<times> string) option" where
  "regexp_exec S lastIndex =
     (if length S < lastIndex then None else regexp_search (drop lastIndex S) lastIndex)"

type_synonym match_state = "nat \<times> string list \<times> bool"

definition match_step :: "string \<Rightarrow> match_state \<Rightarrow> match_state" where
  "match_step S st =
     (case st of (lastIndex, A, _) \<Rightarrow>
        (case regexp_exec S lastIndex of
           None \<Rightarrow> (0, A, False)
         | Some (e, matchStr) \<Rightarrow> (if matchStr = [] then Suc e else e, A @ [matchStr], True)))"

definition match_loop :: "string \<Rightarrow> match_state option" where
  "match_loop S = while_option (\<lambda>(_, _, go). go) (match_step S) (0, [], True)"

text \<open>The outer \<open>None\<close> would be a loop that never stops; the inner one is \<open>null\<close>.\<close>

definition match_global :: "string \<Rightarrow> string list option option" where
  "match_global S = map_option (\<lambda>(_, A, _). if A = [] then None else Some A) (match_loop S)"

section \<open>Lemmas\<close>

lemma regexp_search_Some:
  "regexp_search s p = Some (e, m) \<Longrightarrow>
     p < e \<and> e \<le> p + length s \<and> m \<noteq> [] \<and> require_matches s = m # require_matches (drop (e - p) s)"
proof (induction s p rule: regexp_search.induct)
  case (1 p)
  then show ?case by simp
next
  case (2 c cs p)
  show ?case
  proof (cases "require_match_at (c # cs)")
    case None
    with "2.prems" have "regexp_search cs (Suc p) = Some (e, m)" by simp
    with "2.IH" [OF None] have IH: "Suc p < e" "e \<le> Suc p + length cs" "m \<noteq> []"
      "require_matches cs = m # require_matches (drop (e - Suc p) cs)" by auto
    then have "e - p = Suc (e - Suc p)" by simp
    with IH None show ?thesis by simp
  next
    case (Some m')
    with "2.prems" have e: "e = p + length m'" and m: "m = m'" by auto
    from Some obtain a where "m' = require_open @ a @ '')''" and "starts_with m' (c # cs)"
      by (blast dest: require_match_at_Some)
    then have "m' \<noteq> []" and "length m' \<le> length (c # cs)"
      by (auto dest: starts_with_length)
    with Some e m require_matches_Some [OF Some] show ?thesis by simp
  qed
qed

lemma regexp_search_None: "regexp_search s p = None \<Longrightarrow> require_matches s = []"
  by (induction s p rule: regexp_search.induct) (simp_all split: option.splits)

lemma regexp_exec_Some:
  "regexp_exec S i = Some (e, m) \<Longrightarrow>
     i < e \<and> e \<le> length S \<and> m \<noteq> [] \<and> require_matches (drop i S) = m # require_matches (drop e S)"
proof -
  assume ex: "regexp_exec S i = Some (e, m)"
  then have i: "i \<le> length S" and s: "regexp_search (drop i S) i = Some (e, m)"
    by (simp_all add: regexp_exec_def split: if_splits)
  from regexp_search_Some [OF s] i show ?thesis by simp
qed

lemma regexp_exec_None:
  "i \<le> length S \<Longrightarrow> regexp_exec S i = None \<Longrightarrow> require_matches (drop i S) = []"
  by (simp add: regexp_exec_def regexp_search_None)

text \<open>One run of the loop from any \<open>lastIndex\<close> within the text.\<close>

lemma while_match_step:
  "i \<le> length S \<Longrightarrow>
     while_option (\<lambda>(_, _, go). go) (match_step S) (i, A, True)
       = Some (0, A @ require_matches (drop i S), False)"
proof (induction "length S - i" arbitrary: i A rule: less_induct)
  case less
  show ?case
  proof (cases "regexp_exec S i")
    case None
    with less.prems have "require_matches (drop i S) = []" by (rule regexp_exec_None)
    with None show ?thesis
      by (simp add: while_option_unfold [of _ _ "(i, A, True)"] while_option_unfold [of _ _ "(0, A, False)"]
          match_step_def)
  next
    case (Some em)
    then obtain e m where em: "regexp_exec S i = Some (e, m)" by (cases em) auto
    from regexp_exec_Some [OF em]
    have ie: "i < e" "e \<le> length S" and m: "m \<noteq> []"
      and rm: "require_matches (drop i S) = m # require_matches (drop e S)" by auto
    have step: "match_step S (i, A, True) = (e, A @ [m], True)"
      using em m by (simp add: match_step_def)
    from ie have "length S - e < length S - i" by simp
    with less.hyps ie(2) have "while_option (\<lambda>(_, _, go). go) (match_step S) (e, A @ [m], True)
        = Some (0, (A @ [m]) @ require_matches (drop e S), False)" by blast
    with step rm show ?thesis
      by (simp add: while_option_unfold [of _ _ "(i, A, True)"])
  qed
qed

lemma match_loop_eq: "match_loop S = Some (0, require_matches S, False)"
  using while_match_step [of 0 S "[]"] by (simp add: match_loop_def)

lemma require_matches_shape:
  "m \<in> set (require_matches s) \<Longrightarrow>
     \<exists>a. m = require_open @ a @ '')'' \<and> CHR '')'' \<notin> set a \<and> \<not> list_ex is_line_terminator a"
proof (induction s rule: require_matches.induct)
  case 1
  then show ?case by simp
next
  case (2 c cs)
  show ?case
  proof (cases "require_match_at (c # cs)")
    case None
    with "2.prems" "2.IH"(1) [OF None] show ?thesis by simp
  next
    case (Some m')
    with "2.prems" have "m = m' \<or> m \<in> set (require_matches (drop (length m') (c # cs)))" by simp
    then show ?thesis
    proof
      assume "m = m'"
      with require_match_at_Some [OF Some] show ?thesis by blast
    next
      assume "m \<in> set (require_matches (drop (length m') (c # cs)))"
      with "2.IH"(2) [OF Some] show ?thesis by blast
    qed
  qed
qed

text \<open>Every match is a segment of the text, and the matches follow one another without overlap.\<close>

lemma require_matches_sublist: "m \<in> set (require_matches s) \<Longrightarrow> sublist m s"
proof (induction s rule: require_matches.induct)
  case 1
  then show ?case by simp
next
  case (2 c cs)
  show ?case
  proof (cases "require_match_at (c # cs)")
    case None
    with "2.prems" "2.IH"(1) [OF None] show ?thesis by (simp add: sublist_Cons_right)
  next
    case (Some m')
    from require_match_at_Some [OF Some] have "starts_with m' (c # cs)" by blast
    then have cs: "c # cs = m' @ drop (length m') (c # cs)" by (metis starts_with_take append_take_drop_id)
    from "2.prems" Some have "m = m' \<or> m \<in> set (require_matches (drop (length m') (c # cs)))" by simp
    then show ?thesis
    proof
      assume "m = m'"
      with cs show ?thesis by (metis sublist_append_rightI)
    next
      assume "m \<in> set (require_matches (drop (length m') (c # cs)))"
      with "2.IH"(2) [OF Some] have "sublist m (drop (length m') (c # cs))" by blast
      with cs show ?thesis by (metis sublist_append)
    qed
  qed
qed

lemma require_matches_subseq: "subseq (concat (require_matches s)) s"
proof (induction s rule: require_matches.induct)
  case 1
  then show ?case by simp
next
  case (2 c cs)
  show ?case
  proof (cases "require_match_at (c # cs)")
    case None
    with "2.IH"(1) [OF None] show ?thesis by (simp add: list_emb_Cons)
  next
    case (Some m')
    from require_match_at_Some [OF Some] have "starts_with m' (c # cs)" by blast
    then have cs: "c # cs = m' @ drop (length m') (c # cs)" by (metis starts_with_take append_take_drop_id)
    from "2.IH"(2) [OF Some] have "subseq (m' @ concat (require_matches (drop (length m') (c # cs))))
        (m' @ drop (length m') (c # cs))" by (simp only: subseq_append')
    with cs Some show ?thesis by (simp del: require_matches.simps add: require_matches_Some)
  qed
qed

text \<open>An occurrence of \<open>require(a)\<close> on one line is never missed.\<close>

lemma require_matches_occurrence:
  assumes "CHR '')'' \<notin> set a" and "\<not> list_ex is_line_terminator a"
  shows "require_matches (u @ require_open @ a @ CHR '')'' # v) \<noteq> []"
proof (induction u)
  case Nil
  from require_matches_block [OF assms, of v] show ?case by simp
next
  case (Cons c cs)
  then show ?case
    by (cases "require_match_at (c # cs @ require_open @ a @ CHR '')'' # v)") simp_all
qed

lemma require_matches_Nil_iff:
  "require_matches S = [] \<longleftrightarrow>
     \<not> (\<exists>a. CHR '')'' \<notin> set a \<and> \<not> list_ex is_line_terminator a \<and> sublist (require_open @ a @ '')'') S)"
proof
  assume "require_matches S = []"
  then show "\<not> (\<exists>a. CHR '')'' \<notin> set a \<and> \<not> list_ex is_line_terminator a \<and> sublist (require_open @ a @ '')'') S)"
    using require_matches_occurrence by (fastforce simp: sublist_def)
next
  assume none: "\<not> (\<exists>a. CHR '')'' \<notin> set a \<and> \<not> list_ex is_line_terminator a \<and> sublist (require_open @ a @ '')'') S)"
  show "require_matches S = []"
  proof (rule ccontr)
    assume "require_matches S \<noteq> []"
    then obtain m where m: "m \<in> set (require_matches S)" by (cases "require_matches S") auto
    from require_matches_shape [OF m] require_matches_sublist [OF m] none show False by blast
  qed
qed

lemma match_global_eq: "match_global S = Some (js_match_require S)"
  by (simp add: match_global_def match_loop_eq js_match_require_def Let_def)

section \<open>Properties\<close>

text \<open>
  C13. \<open>content.match(pattern)\<close> returns \<open>null\<close> exactly when the text holds no
  \<open>require(\<close>, closed by a \<open>)\<close> on the same line: whatever stands between the
  parentheses, one such occurrence is enough for a non-empty array.
\<close>

theorem match_global_null_iff:
  "match_global S = Some None \<longleftrightarrow>
     \<not> (\<exists>a. CHR '')'' \<notin> set a \<and> \<not> list_ex is_line_terminator a \<and> sublist (require_open @ a @ '')'') S)"
  by (simp add: match_global_eq js_match_require_def Let_def require_matches_Nil_iff)

theorem match_global_null_iff_witness:
  "match_global (''let x = f(y);'' @ [CHR 0x0A] @ ''require(a'' @ [CHR 0x0A] @ '')'') = Some None
   \<and> match_global ''x = g(require(h(y)));'' \<noteq> Some None"
proof
  show "match_global (''let x = f(y);'' @ [CHR 0x0A] @ ''require(a'' @ [CHR 0x0A] @ '')'') = Some None"
    by code_simp
  have "CHR '')'' \<notin> set ''h(y'' \<and> \<not> list_ex is_line_terminator ''h(y''
      \<and> sublist (require_open @ ''h(y'' @ '')'') ''x = g(require(h(y)));''"
    by code_simp
  then show "match_global ''x = g(require(h(y)));'' \<noteq> Some None"
    using match_global_null_iff [of "''x = g(require(h(y)));''"] by blast
qed

text \<open>
  C14. Termination and the lazy group: the match loop returns on every text, and each
  element of the array is \<open>require(a)\<close> with no \<open>)\<close> and no line terminator in
  \<open>a\<close>, the shortest match \<open>(.*?)\<close> allows; the elements are segments of the text
  and follow one another in order without overlapping.
\<close>

theorem match_global_matches:
  "case match_global S of
     None \<Rightarrow> False
   | Some None \<Rightarrow> True
   | Some (Some A) \<Rightarrow>
       list_all (\<lambda>m. \<exists>a. m = require_open @ a @ '')'' \<and> CHR '')'' \<notin> set a
                        \<and> \<not> list_ex is_line_terminator a \<and> sublist m S) A
       \<and> subseq (concat A) S"
proof -
  have "list_all (\<lambda>m. \<exists>a. m = require_open @ a @ '')'' \<and> CHR '')'' \<notin> set a
                        \<and> \<not> list_ex is_line_terminator a \<and> sublist m S) (require_matches S)"
    unfolding list_all_iff
  proof
    fix m assume m: "m \<in> set (require_matches S)"
    from require_matches_shape [OF m] require_matches_sublist [OF m]
    show "\<exists>a. m = require_open @ a @ '')'' \<and> CHR '')'' \<notin> set a
                        \<and> \<not> list_ex is_line_terminator a \<and> sublist m S" by blast
  qed
  with require_matches_subseq [of S] show ?thesis
    by (simp add: match_global_eq js_match_require_def Let_def)
qed

end
