(* ===== verification/Extractor.thy ===== *)
theory Extractor
  imports GlobalMatch
begin

text \<open>
  ReferenceExtractor and ReferenceValidator: \<open>getModulesFromFile\<close>
  (\<open>src/helpers.js\<close>, lines 135 to 148), \<open>isValidModule\<close> (lines 152 to 155) and
  \<open>isTestFile\<close> (lines 216 to 218). The file is read, every match of the
  \<open>require\<close> pattern is cut down to its argument by the three string operations of
  lines 142 to 144, and the candidate is kept when \<open>isValidModule\<close> accepts it.

  \<open>isValidModule\<close> is declared with the destructuring parameter
  \<open>({name, dev})\<close> but called with a string: the string has no \<open>name\<close> property,
  the regular expression tests \<open>ToString(undefined) = "undefined"\<close>, and every
  candidate is accepted (\<open>isValidModule_string\<close>). The lemmas here characterise the
  extraction completely (\<open>modules_of_content_eq\<close>), show what the stripping does to
  a literal and to a non-literal argument, and prove the round trip from a rendered
  list of references back to their names.
\<close>

section \<open>Definitions\<close>

text \<open>\<open>isValidModule = ({name, dev}) => new RegExp("^([a-z0-9-_]{1,})$").test(name)\<close>\<close>

definition isValidModule :: "jsval \<Rightarrow> error + bool" where
  "isValidModule arg =
     (case js_get arg ''name'' of
        Inl e \<Rightarrow> Inl e
      | Inr name_val \<Rightarrow>
          (case js_get arg ''dev'' of
             Inl e \<Rightarrow> Inl e
           | Inr _ \<Rightarrow> Inr (name_regex_test (js_to_string name_val))))"

text \<open>Lines 142 to 144: drop the word, then two characters in front, two at the back.\<close>

definition strip_require :: "string \<Rightarrow> string" where
  "strip_require match =
     (let m1 = js_replace_first match ''require'' '''';
          m2 = js_substring_from m1 2;
          m3 = js_substring m2 0 (int (length m2) - 2)
      in m3)"

text \<open>The loop of lines 140 to 146, which pushes the accepted candidates in order.\<close>

fun collect_valid :: "string list \<Rightarrow> error + string list" where
  "collect_valid [] = Inr []"
| "collect_valid (match # matches) =
     (let candidate = strip_require match in
      case isValidModule (JsString candidate) of
        Inl e \<Rightarrow> Inl e
      | Inr ok \<Rightarrow>
          (case collect_valid matches of
             Inl e \<Rightarrow> Inl e
           | Inr modules \<Rightarrow> Inr (if ok then candidate # modules else modules)))"

text \<open>Lines 137 to 147, from the text of the file: no match (\<open>null\<close>) gives \<open>[]\<close>.\<close>

definition modules_of_content :: "text_content \<Rightarrow> error + string list" where
  "modules_of_content content =
     (case js_match_require content of
        None \<Rightarrow> Inr []
      | Some matches \<Rightarrow> collect_valid matches)"

definition getModulesFromFile :: "filesystem \<Rightarrow> path \<Rightarrow> error + string list" where
  "getModulesFromFile fs p =
     (case read_file_sync fs p of
        Inl e \<Rightarrow> Inl e
      | Inr content \<Rightarrow> modules_of_content content)"

definition isTestFile :: "path \<Rightarrow> bool" where
  "isTestFile file_name \<longleftrightarrow> js_ends_with file_name ''.spec.js'' \<or> js_ends_with file_name ''.test.js''"

section \<open>Lemmas\<close>

lemma name_regex_test_chars:
  "name_regex_test n \<Longrightarrow>
     CHR '')'' \<notin> set n \<and> CHR ''('' \<notin> set n \<and> \<not> list_ex is_line_terminator n"
  by (auto simp: name_regex_test_def name_char_def is_line_terminator_def list_all_iff list_ex_iff)

lemma isValidModule_string_Inr: "isValidModule (JsString s) = Inr True"
  by (simp add: isValidModule_def js_array_index_def is_digit_def name_regex_test_def name_char_def)

lemma collect_valid_strings: "collect_valid ms = Inr (map strip_require ms)"
  by (induction ms) (simp_all add: isValidModule_string_Inr Let_def)

lemma strip_require_block_eq:
  "strip_require (require_open @ a @ '')'') = butlast (tl a)"
proof -
  have m1: "js_replace_first (require_open @ a @ '')'') ''require'' '''' = ''('' @ a @ '')''"
    by (simp add: js_replace_first_prefix)
  have m2: "js_substring_from (''('' @ a @ '')'') 2 = tl (a @ '')'')"
    by (cases a) simp_all
  have "strip_require (require_open @ a @ '')'')
      = js_substring (tl (a @ '')'')) 0 (int (length (tl (a @ '')''))) - 2)"
    by (simp only: strip_require_def Let_def m1 m2)
  also have "\<dots> = take (length (tl (a @ '')'')) - 2) (tl (a @ '')''))"
    by (rule js_substring_prefix)
  also have "\<dots> = butlast (tl a)"
    by (cases a) (simp_all add: butlast_conv_take)
  finally show ?thesis .
qed

lemma modules_of_content_matches:
  "modules_of_content content = Inr (map strip_require (require_matches content))"
  by (simp add: modules_of_content_def js_match_require_def collect_valid_strings Let_def)

text \<open>The double quote, which cannot be written inside a string literal here.\<close>

abbreviation dquote :: char where
  "dquote \<equiv> CHR 0x22"

lemma strip_require_quoted: "strip_require (require_open @ (dquote # n @ [dquote]) @ '')'') = n"
  using strip_require_block_eq [of "dquote # n @ [dquote]"] by simp

section \<open>Properties\<close>

text \<open>
  C7. Round trip: a file made of separators without an opening parenthesis and of
  references \<open>require("n")\<close>, whose quoted arguments hold no \<open>)\<close> and no line
  break, yields exactly the quoted arguments, in order and with repetitions.
\<close>

theorem modules_of_content_roundtrip:
  assumes "\<forall>(sep, n) \<in> set xs. CHR ''('' \<notin> set sep \<and> CHR '')'' \<notin> set n
             \<and> \<not> list_ex is_line_terminator n"
    and "CHR ''('' \<notin> set tail"
  shows "modules_of_content
           (concat (map (\<lambda>(sep, n). sep @ require_open @ (dquote # n @ [dquote]) @ '')'') xs) @ tail)
         = Inr (map snd xs)"
proof -
  let ?q = "\<lambda>(sep, n). (sep, dquote # n @ [dquote])"
  have ok: "\<forall>(sep, a) \<in> set (map ?q xs). CHR ''('' \<notin> set sep \<and> CHR '')'' \<notin> set a
              \<and> \<not> list_ex is_line_terminator a"
    using assms(1) by (auto simp: is_line_terminator_def)
  have body: "concat (map (\<lambda>(sep, n). sep @ require_open @ (dquote # n @ [dquote]) @ '')'') xs)
      = concat (map (\<lambda>(sep, a). sep @ require_open @ a @ '')'') (map ?q xs))"
    by (induction xs) auto
  have "map strip_require (map (\<lambda>(sep, a). require_open @ a @ '')'') (map ?q xs)) = map snd xs"
    by (simp add: case_prod_beta strip_require_quoted del: append.simps)
  then show ?thesis
    by (simp only: modules_of_content_matches body require_matches_render [OF ok assms(2)])
qed

theorem modules_of_content_roundtrip_witness:
  "modules_of_content
     (concat (map (\<lambda>(sep, n). sep @ require_open @ (dquote # n @ [dquote]) @ '')'')
        [(''const _ = '', ''lodash''), ('';\<newline>const c = '', ''chalk'')]) @ '';\<newline>'')
   = Inr [''lodash'', ''chalk'']"
proof -
  have h1: "\<forall>(sep, n) \<in> set [(''const _ = '', ''lodash''), ('';\<newline>const c = '', ''chalk'')].
          CHR ''('' \<notin> set sep \<and> CHR '')'' \<notin> set n \<and> \<not> list_ex is_line_terminator n"
    by (simp add: is_line_terminator_def)
  have h2: "CHR ''('' \<notin> set '';\<newline>''" by simp
  show ?thesis using modules_of_content_roundtrip [OF h1 h2] by simp
qed

text \<open>
  C8. The validator accepts every candidate the extractor gives it: called with a
  string, \<open>isValidModule\<close> tests the string \<open>"undefined"\<close>. Given an object
  \<open>{name, dev}\<close>, as its parameter list expects, it would test the name.
\<close>

theorem isValidModule_accepts_every_string:
  "isValidModule (JsString s) = Inr True
   \<and> isValidModule (JsObject [(''name'', JsString s), (''dev'', JsBool d)]) = Inr (name_regex_test s)"
  by (simp add: isValidModule_def js_array_index_def is_digit_def name_regex_test_def name_char_def)

text \<open>
  C23. A reference whose argument is not a quoted literal is not skipped: the
  stripping removes the first and the last character of whatever stands between the
  parentheses, and the remains are reported as a module.
\<close>

theorem modules_of_content_nonliteral:
  assumes "CHR '')'' \<notin> set v" and "\<not> list_ex is_line_terminator v"
  shows "modules_of_content (require_open @ v @ '')'') = Inr [butlast (tl v)]"
proof -
  have "require_matches ((require_open @ v @ '')'') @ []) = [require_open @ v @ '')'']"
    using require_matches_block [OF assms, of "[]"] by simp
  then show ?thesis
    by (simp add: modules_of_content_matches strip_require_block_eq del: append.simps)
qed

theorem modules_of_content_nonliteral_witness:
  "modules_of_content (require_open @ ''someVariable'' @ '')'') = Inr [''omeVariabl'']"
proof -
  have "CHR '')'' \<notin> set ''someVariable''" and
    "\<not> list_ex is_line_terminator ''someVariable''"
    by (simp_all add: is_line_terminator_def)
  from modules_of_content_nonliteral [OF this] show ?thesis by simp
qed

end
