(* ===== verification/Classifier.thy ===== *)
theory Classifier
  imports JsString
begin

text \<open>
  ReferenceClassifier: \<open>filterRegistryModules\<close> (\<open>src/helpers.js\<close>, lines 159 to
  163) applies \<open>removeBuiltInModules\<close> (lines 167 to 172) and then
  \<open>removeLocalFiles\<close> (lines 176 to 181). The built-in test is the library
  \<open>is-builtin-module\<close>, which the model takes as a parameter
  \<open>isBuiltInModule :: string \<Rightarrow> bool\<close>: every property below holds for any such
  predicate. A local file is a name at which \<open>indexOf('./')\<close> is \<open>0\<close>, that is, a
  name starting with \<open>./\<close>; a name starting with \<open>../\<close> or \<open>/\<close> is kept.
\<close>

section \<open>Definitions\<close>

definition removeBuiltInModules ::
  "(string \<Rightarrow> bool) \<Rightarrow> module_ref list \<Rightarrow> module_ref list" where
  "removeBuiltInModules isBuiltInModule modules =
     filter (\<lambda>module. \<not> isBuiltInModule (name module)) modules"

definition removeLocalFiles :: "module_ref list \<Rightarrow> module_ref list" where
  "removeLocalFiles modules = filter (\<lambda>module. js_index_of (name module) ''./'' \<noteq> 0) modules"

definition filterRegistryModules ::
  "(string \<Rightarrow> bool) \<Rightarrow> module_ref list \<Rightarrow> module_ref list" where
  "filterRegistryModules isBuiltInModule modules =
     (let modules = removeBuiltInModules isBuiltInModule modules;
          modules = removeLocalFiles modules
      in modules)"

text \<open>The specification's registry predicate: neither built in nor a local path.\<close>

definition registry_name :: "(string \<Rightarrow> bool) \<Rightarrow> string \<Rightarrow> bool" where
  "registry_name isBuiltInModule n \<longleftrightarrow> \<not> isBuiltInModule n \<and> \<not> prefix ''./'' n"

section \<open>Lemmas\<close>

lemma removeLocalFiles_filter:
  "removeLocalFiles modules = filter (\<lambda>m. \<not> prefix ''./'' (name m)) modules"
  by (simp add: removeLocalFiles_def js_index_of_zero_iff starts_with_prefix)

lemma filterRegistryModules_filter:
  "filterRegistryModules b modules = filter (\<lambda>m. registry_name b (name m)) modules"
  by (simp add: filterRegistryModules_def removeBuiltInModules_def removeLocalFiles_filter
      registry_name_def conj_commute)

section \<open>Properties\<close>

text \<open>
  C9. The classifier keeps exactly the modules whose name is neither built in nor a
  local path, in their order; applying the two filters in the other order gives the
  same list.
\<close>

theorem filterRegistryModules_spec:
  "filterRegistryModules b modules
     = filter (\<lambda>m. \<not> b (name m) \<and> \<not> prefix ''./'' (name m)) modules
   \<and> filterRegistryModules b modules = removeBuiltInModules b (removeLocalFiles modules)"
  by (simp add: filterRegistryModules_filter registry_name_def removeBuiltInModules_def
      removeLocalFiles_filter conj_commute)

end
