(* ===== verification/Dedup.thy ===== *)
theory Dedup
  imports Prelude
begin

text \<open>
  Deduplicator: \<open>deduplicateSimilarModules\<close> (\<open>src/helpers.js\<close>, lines 248 to
  260) walks the list once, keeping a module when its name is not yet in the array
  of kept names (\<open>indexOf(...) === -1\<close>), and \<open>deduplicate\<close> (lines 231 to 241)
  applies it to the test modules and to the production modules and concatenates the
  two results, test modules first. The loop is \<open>dedup_loop\<close>, with the two arrays
  it updates as accumulators.

  The reference \<open>first_occurrences\<close> states the contract declaratively: the
  elements whose name does not occur earlier in the list. The lemmas show that the
  loop keeps its two arrays in step, that it computes the reference, and that
  \<open>deduplicate\<close> returns every input module exactly once.
\<close>

section \<open>Definitions\<close>

fun dedup_loop :: "module_ref list \<Rightarrow> module_ref list \<Rightarrow> string list \<Rightarrow> module_ref list" where
  "dedup_loop [] dedupedModules dedupedModuleNames = dedupedModules"
| "dedup_loop (module # modules) dedupedModules dedupedModuleNames =
     (if js_array_index_of dedupedModuleNames (name module) = -1
      then dedup_loop modules (dedupedModules @ [module]) (dedupedModuleNames @ [name module])
      else dedup_loop modules dedupedModules dedupedModuleNames)"

definition deduplicateSimilarModules :: "module_ref list \<Rightarrow> module_ref list" where
  "deduplicateSimilarModules modules = dedup_loop modules [] []"

definition deduplicate :: "module_ref list \<Rightarrow> module_ref list" where
  "deduplicate modules =
     (let dedupedModules = [];
          testModules = filter dev modules;
          dedupedModules = dedupedModules @ deduplicateSimilarModules testModules;
          prodModules = filter (\<lambda>module. \<not> dev module) modules;
          dedupedModules = dedupedModules @ deduplicateSimilarModules prodModules
      in dedupedModules)"

text \<open>The reference: the elements whose name occurs at no smaller index.\<close>

definition first_occurrences :: "module_ref list \<Rightarrow> module_ref list" where
  "first_occurrences ms =
     map (\<lambda>i. ms ! i) (filter (\<lambda>i. name (ms ! i) \<notin> set (map name (take i ms))) [0..<length ms])"

text \<open>The same with a set of names already seen, by recursion on the list.\<close>

fun dedup_seen :: "string set \<Rightarrow> module_ref list \<Rightarrow> module_ref list" where
  "dedup_seen S [] = []"
| "dedup_seen S (m # ms) =
     (if name m \<in> S then dedup_seen S ms else m # dedup_seen (insert (name m) S) ms)"

section \<open>Lemmas\<close>

lemma dedup_loop_seen:
  "dedup_loop ms acc (map name acc) = acc @ dedup_seen (set (map name acc)) ms"
proof (induction ms arbitrary: acc)
  case Nil
  then show ?case by simp
next
  case (Cons m ms)
  show ?case
  proof (cases "name m \<in> set (map name acc)")
    case True
    with Cons.IH [of acc] show ?thesis by simp
  next
    case False
    with Cons.IH [of "acc @ [m]"] show ?thesis by simp
  qed
qed

lemma deduplicateSimilarModules_seen:
  "deduplicateSimilarModules ms = dedup_seen {} ms"
  using dedup_loop_seen [of ms "[]"] by (simp add: deduplicateSimilarModules_def)

lemma dedup_seen_indices:
  "dedup_seen S ms =
     map (\<lambda>i. ms ! i) (filter (\<lambda>i. name (ms ! i) \<notin> S \<union> set (map name (take i ms))) [0..<length ms])"
proof (induction ms arbitrary: S)
  case Nil
  then show ?case by simp
next
  case (Cons m ms)
  let ?P = "\<lambda>S' ms' i. name (ms' ! i) \<notin> S' \<union> set (map name (take i ms'))"
  have P_Suc: "?P S (m # ms) \<circ> Suc = ?P (insert (name m) S) ms"
    by (auto simp: fun_eq_iff)
  have upt: "[0..<length (m # ms)] = 0 # map Suc [0..<length ms]"
    by (simp add: map_Suc_upt upt_conv_Cons del: upt_Suc)
  have "filter (?P S (m # ms)) [0..<length (m # ms)]
      = (if name m \<in> S then [] else [0]) @ map Suc (filter (?P (insert (name m) S) ms) [0..<length ms])"
    by (simp only: upt filter.simps filter_map P_Suc) simp
  then have eq: "map (\<lambda>i. (m # ms) ! i) (filter (?P S (m # ms)) [0..<length (m # ms)])
      = (if name m \<in> S then [] else [m]) @ map (\<lambda>i. ms ! i) (filter (?P (insert (name m) S) ms) [0..<length ms])"
    by (simp del: upt_Suc)
  show ?case
  proof (cases "name m \<in> S")
    case True
    then have "insert (name m) S = S" by (rule insert_absorb)
    with True eq Cons.IH [of S] show ?thesis by (simp del: upt_Suc)
  next
    case False
    with eq Cons.IH [of "insert (name m) S"] show ?thesis by (simp del: upt_Suc)
  qed
qed

lemma dedup_seen_names_distinct:
  "distinct (map name (dedup_seen S ms)) \<and> set (map name (dedup_seen S ms)) \<inter> S = {}"
  by (induction ms arbitrary: S) auto

lemma dedup_seen_subset: "set (dedup_seen S ms) \<subseteq> set ms"
  by (induction ms arbitrary: S) auto

lemma dedup_seen_covers:
  "m \<in> set ms \<Longrightarrow> name m \<notin> S \<Longrightarrow> \<exists>m' \<in> set (dedup_seen S ms). name m' = name m"
proof (induction ms arbitrary: S)
  case Nil
  then show ?case by simp
next
  case (Cons a ms)
  show ?case
  proof (cases "name a \<in> S")
    case True
    with Cons.prems have "m \<in> set ms" by auto
    with True Cons.prems Cons.IH [of S] show ?thesis by simp
  next
    case False
    show ?thesis
    proof (cases "name a = name m")
      case True
      with False show ?thesis by simp
    next
      case other: False
      with Cons.prems have "m \<in> set ms" and "name m \<notin> insert (name a) S" by auto
      with Cons.IH [of "insert (name a) S"] False show ?thesis by auto
    qed
  qed
qed

lemma deduplicate_seen:
  "deduplicate ms = dedup_seen {} (filter dev ms) @ dedup_seen {} (filter (\<lambda>m. \<not> dev m) ms)"
  by (simp add: deduplicate_def deduplicateSimilarModules_seen)

lemma distinct_pairs_if_distinct_names:
  "distinct (map name xs) \<Longrightarrow> distinct (map (\<lambda>m. (name m, dev m)) xs)"
  by (induction xs) auto

lemma module_ref_eqI: "name m = name m' \<Longrightarrow> dev m = dev m' \<Longrightarrow> m = (m' :: module_ref)"
  by (cases m, cases m') simp

lemma dedup_seen_partition_set:
  assumes "\<forall>m \<in> set xs. dev m = d"
  shows "set (dedup_seen {} xs) = set xs"
proof
  show "set (dedup_seen {} xs) \<subseteq> set xs" by (rule dedup_seen_subset)
next
  show "set xs \<subseteq> set (dedup_seen {} xs)"
  proof
    fix m assume m: "m \<in> set xs"
    then obtain m' where m': "m' \<in> set (dedup_seen {} xs)" "name m' = name m"
      using dedup_seen_covers [of m xs "{}"] by auto
    with dedup_seen_subset have "m' \<in> set xs" by blast
    with m assms have "dev m' = dev m" by simp
    with m' have "m' = m" by (simp add: module_ref_eqI)
    with m' show "m \<in> set (dedup_seen {} xs)" by simp
  qed
qed

lemma set_deduplicate: "set (deduplicate modules) = set modules"
proof -
  have "set (dedup_seen {} (filter dev modules)) = set (filter dev modules)"
    by (rule dedup_seen_partition_set [where d = True]) simp
  moreover have "set (dedup_seen {} (filter (\<lambda>m. \<not> dev m) modules))
      = set (filter (\<lambda>m. \<not> dev m) modules)"
    by (rule dedup_seen_partition_set [where d = False]) simp
  ultimately show ?thesis by (auto simp: deduplicate_seen)
qed

lemma distinct_pairs_deduplicate:
  "distinct (map (\<lambda>m. (name m, dev m)) (deduplicate modules))"
proof -
  let ?f = "\<lambda>m. (name m, dev m)"
  let ?T = "dedup_seen {} (filter dev modules)"
  let ?P = "dedup_seen {} (filter (\<lambda>m. \<not> dev m) modules)"
  have dT: "distinct (map ?f ?T)"
    by (rule distinct_pairs_if_distinct_names) (rule conjunct1 [OF dedup_seen_names_distinct])
  have dP: "distinct (map ?f ?P)"
    by (rule distinct_pairs_if_distinct_names) (rule conjunct1 [OF dedup_seen_names_distinct])
  have T: "dev a" if "a \<in> set ?T" for a
    using that dedup_seen_subset [of "{}" "filter dev modules"] by auto
  have P: "\<not> dev b" if "b \<in> set ?P" for b
    using that dedup_seen_subset [of "{}" "filter (\<lambda>m. \<not> dev m) modules"] by auto
  have disj: "set (map ?f ?T) \<inter> set (map ?f ?P) = {}"
  proof (rule ccontr)
    assume "set (map ?f ?T) \<inter> set (map ?f ?P) \<noteq> {}"
    then obtain a b where a: "a \<in> set ?T" and b: "b \<in> set ?P" and ab: "?f a = ?f b"
      by auto
    from ab T [OF a] P [OF b] show False by simp
  qed
  from dT dP disj have "distinct (map ?f ?T @ map ?f ?P)"
    by (simp only: distinct_append)
  then show ?thesis by (simp only: deduplicate_seen map_append)
qed

section \<open>Properties\<close>

text \<open>
  C1. No module appears twice in the deduplicated list: its \<open>(name, dev)\<close> pairs
  are pairwise distinct.
\<close>

theorem deduplicate_distinct_pairs:
  "distinct (map (\<lambda>m. (name m, dev m)) (deduplicate modules))"
  by (rule distinct_pairs_deduplicate)

text \<open>
  C2. Deduplication loses no module: the output holds exactly the modules of the
  input, one entry per distinct \<open>(name, dev)\<close>.
\<close>

theorem deduplicate_set: "set (deduplicate modules) = set modules"
  by (rule set_deduplicate)

text \<open>
  C3. The loop of \<open>deduplicateSimilarModules\<close> computes the reference: it keeps
  exactly the modules whose name does not occur at a smaller index, in input order.
\<close>

theorem deduplicateSimilarModules_first_occurrences:
  "deduplicateSimilarModules modules = first_occurrences modules"
  by (simp add: deduplicateSimilarModules_seen dedup_seen_indices first_occurrences_def)

end
