(* ===== verification/Diff.thy ===== *)
theory Diff
  imports Prelude
begin

text \<open>
  DiffEngine: \<open>diff\<close> (\<open>src/helpers.js\<close>, lines 185 to 188) keeps the modules of
  the first list whose name is not among the names of the second
  (\<open>getNamesFromModules\<close>, lines 222 to 224, and \<open>indexOf(...) < 0\<close>). The
  comparison is by name only: the \<open>dev\<close> flag of either side plays no part, and each
  kept module keeps its own flag.

  The abstract specification is set difference on names: \<open>diff_names_refines\<close>
  shows that the names of the result are the names of the first list minus those of
  the second. The other lemmas give the exact result, its order, and the facts the
  end-to-end properties use (a list minus itself is empty, the result of a
  difference is disjoint by name from what was subtracted).
\<close>

section \<open>Definitions\<close>

definition getNamesFromModules :: "module_ref list \<Rightarrow> string list" where
  "getNamesFromModules modules = map name modules"

definition diff :: "module_ref list \<Rightarrow> module_ref list \<Rightarrow> module_ref list" where
  "diff first second =
     (let namesFromSecond = getNamesFromModules second
      in filter (\<lambda>module. js_array_index_of namesFromSecond (name module) < 0) first)"

text \<open>The names a list of modules stands for: the abstraction of the refinement.\<close>

definition names_of :: "module_ref list \<Rightarrow> string set" where
  "names_of modules = name ` set modules"

section \<open>Lemmas\<close>

lemma diff_filter: "diff first second = filter (\<lambda>m. name m \<notin> names_of second) first"
  by (simp add: diff_def getNamesFromModules_def names_of_def)

lemma diff_subseq: "subseq (diff first second) first"
  by (simp add: diff_filter subseq_filter_self)

lemma diff_self [simp]: "diff ms ms = []"
  by (simp add: diff_filter names_of_def)

lemma diff_Nil_right [simp]: "diff ms [] = ms"
  by (simp add: diff_filter names_of_def)

lemma diff_empty_iff: "diff first second = [] \<longleftrightarrow> names_of first \<subseteq> names_of second"
  by (auto simp: diff_filter names_of_def filter_empty_conv)

lemma diff_names_disjoint: "names_of (diff a b) \<inter> names_of (diff b a) = {}"
  by (auto simp: diff_filter names_of_def)

lemma distinct_pairs_diff:
  "distinct (map (\<lambda>m. (name m, dev m)) a) \<Longrightarrow> distinct (map (\<lambda>m. (name m, dev m)) (diff a b))"
  by (simp add: diff_filter distinct_map_filter)

section \<open>Properties\<close>

text \<open>
  C4. The difference keeps exactly the modules of the first list, with their own
  \<open>dev\<close> flags and in their order, whose name occurs nowhere in the second list,
  whatever partition it occurs in there.
\<close>

theorem diff_spec:
  "diff first second = filter (\<lambda>m. name m \<notin> name ` set second) first
   \<and> (m \<in> set (diff first second) \<longleftrightarrow> m \<in> set first \<and> name m \<notin> name ` set second)"
  by (auto simp: diff_def getNamesFromModules_def)

text \<open>
  C5. Refinement: on names, \<open>diff\<close> is set difference. The names of
  \<open>diff a b\<close> are the names of \<open>a\<close> minus the names of \<open>b\<close>.
\<close>

theorem diff_names_refines: "names_of (diff first second) = names_of first - names_of second"
  by (auto simp: diff_filter names_of_def)

end
