(* ===== verification/Manifest.thy ===== *)
theory Manifest
  imports JsString
begin

text \<open>
  ManifestReader: \<open>getInstalledModules\<close> (\<open>src/helpers.js\<close>, lines 16 to 28)
  reads \<open>package.json\<close>, parses it with \<open>JSON.parse\<close>, and pushes one module per
  key that \<open>for (let key in content.dependencies)\<close> enumerates (\<open>dev = false\<close>),
  then one per key of \<open>content.devDependencies\<close> (\<open>dev = true\<close>).

  The parsed document is a \<open>json\<close> value; the parser is a library, taken as a
  parameter \<open>json_parse\<close> that returns \<open>None\<close> where \<open>JSON.parse\<close> throws.
  An object keeps its members in the order of the text; reading a key takes its
  last occurrence (\<open>json_get\<close>), and \<open>for-in\<close> enumerates the array-index keys
  first, in ascending order, then the other keys in the order of their first
  occurrence (\<open>js_own_keys\<close>). \<open>for-in\<close> over \<open>undefined\<close>, \<open>null\<close>, a boolean
  or a number enumerates nothing; over a string or an array it enumerates the
  indices \<open>"0"\<close>, \<open>"1"\<close>, and so on (\<open>for_in_keys\<close>).

  The lemmas give the result for a manifest whose sections are objects, show that
  each section yields distinct names, and characterise every way the reader fails.
\<close>

section \<open>Definitions\<close>

datatype json =
    JNull
  | JBool bool
  | JNumber int
  | JString string
  | JArray "json list"
  | JObject "(string \<times> json) list"

text \<open>\<open>v[k]\<close> on a parsed value; \<open>None\<close> is \<open>undefined\<close>, reading from \<open>null\<close> throws.\<close>

fun json_get :: "json \<Rightarrow> string \<Rightarrow> error + json option" where
  "json_get JNull k = Inl (TypeError k)"
| "json_get (JObject ps) k = Inr (map_of (rev ps) k)"
| "json_get (JString s) k =
     Inr (if k = ''length'' then Some (JNumber (int (length s)))
          else (case js_array_index k of
                  Some i \<Rightarrow> if i < length s then Some (JString [s ! i]) else None
                | None \<Rightarrow> None))"
| "json_get (JArray xs) k =
     Inr (if k = ''length'' then Some (JNumber (int (length xs)))
          else (case js_array_index k of
                  Some i \<Rightarrow> if i < length xs then Some (xs ! i) else None
                | None \<Rightarrow> None))"
| "json_get (JBool b) k = Inr None"
| "json_get (JNumber i) k = Inr None"

definition is_index_key :: "string \<Rightarrow> bool" where
  "is_index_key k \<longleftrightarrow> js_array_index k \<noteq> None"

text \<open>The order in which \<open>for-in\<close> visits the own keys of a parsed object.\<close>

definition js_own_keys :: "(string \<times> json) list \<Rightarrow> string list" where
  "js_own_keys ps =
     (let keys = rev (remdups (rev (map fst ps)))
      in sort_key (\<lambda>k. the (js_array_index k)) (filter is_index_key keys)
         @ filter (\<lambda>k. \<not> is_index_key k) keys)"

fun for_in_keys :: "json option \<Rightarrow> string list" where
  "for_in_keys None = []"
| "for_in_keys (Some JNull) = []"
| "for_in_keys (Some (JBool b)) = []"
| "for_in_keys (Some (JNumber i)) = []"
| "for_in_keys (Some (JString s)) = map decimal [0..<length s]"
| "for_in_keys (Some (JArray xs)) = map decimal [0..<length xs]"
| "for_in_keys (Some (JObject ps)) = js_own_keys ps"

definition getInstalledModules ::
  "(text_content \<Rightarrow> json option) \<Rightarrow> filesystem \<Rightarrow> error + module_ref list" where
  "getInstalledModules json_parse fs =
     (case readFile fs ''package.json'' of
        Inl e \<Rightarrow> Inl e
      | Inr txt \<Rightarrow>
          (case json_parse txt of
             None \<Rightarrow> Inl SyntaxError
           | Some content \<Rightarrow>
               (case json_get content ''dependencies'' of
                  Inl e \<Rightarrow> Inl e
                | Inr deps \<Rightarrow>
                    (let installedModules =
                           map (\<lambda>key. \<lparr>name = key, dev = False\<rparr>) (for_in_keys deps)
                     in case json_get content ''devDependencies'' of
                          Inl e \<Rightarrow> Inl e
                        | Inr devDeps \<Rightarrow>
                            Inr (installedModules
                                 @ map (\<lambda>key. \<lparr>name = key, dev = True\<rparr>) (for_in_keys devDeps))))))"

section \<open>Lemmas\<close>

lemma js_own_keys_set: "set (js_own_keys ps) = set (map fst ps)"
  by (auto simp: js_own_keys_def Let_def)

lemma js_own_keys_distinct: "distinct (js_own_keys ps)"
  by (auto simp: js_own_keys_def Let_def)

lemma js_own_keys_plain:
  "\<forall>k \<in> set (map fst ps). \<not> is_index_key k \<Longrightarrow> js_own_keys ps = rev (remdups (rev (map fst ps)))"
  by (simp add: js_own_keys_def Let_def filter_empty_conv)

lemma json_get_not_null: "c \<noteq> JNull \<Longrightarrow> \<exists>v. json_get c k = Inr v"
  by (cases c) auto

lemma for_in_keys_string_indices:
  "length s < 2 ^ 32 - 1 \<Longrightarrow> map js_array_index (for_in_keys (Some (JString s))) = map Some [0..<length s]"
  by (simp add: js_array_index_decimal)

lemma decimal_inj: "decimal m = decimal n \<Longrightarrow> m = n"
  by (metis decimal_props)

lemma distinct_map_decimal: "distinct (map decimal [0..<n])"
  by (simp add: distinct_map inj_on_def decimal_inj)

lemma getInstalledModules_read:
  "readFile fs ''package.json'' = Inr txt \<Longrightarrow> json_parse txt = Some content \<Longrightarrow>
   json_get content ''dependencies'' = Inr deps \<Longrightarrow> json_get content ''devDependencies'' = Inr devDeps \<Longrightarrow>
   getInstalledModules json_parse fs =
     Inr (map (\<lambda>key. \<lparr>name = key, dev = False\<rparr>) (for_in_keys deps)
          @ map (\<lambda>key. \<lparr>name = key, dev = True\<rparr>) (for_in_keys devDeps))"
  by (simp add: getInstalledModules_def)

lemma distinct_for_in_keys: "distinct (for_in_keys v)"
proof (cases v)
  case None
  then show ?thesis by simp
next
  case (Some j)
  then show ?thesis
    by (cases j) (simp_all add: js_own_keys_distinct distinct_map_decimal)
qed

lemma getInstalledModules_distinct_pairs:
  "getInstalledModules json_parse fs = Inr ms \<Longrightarrow> distinct (map (\<lambda>m. (name m, dev m)) ms)"
  by (auto simp: getInstalledModules_def distinct_map inj_on_def distinct_for_in_keys
      split: sum.splits option.splits)

section \<open>Properties\<close>

text \<open>
  C20. A manifest whose two sections are objects yields one production module per
  key of \<open>dependencies\<close> and then one development module per key of
  \<open>devDependencies\<close>, in \<open>for-in\<close> order.
\<close>

theorem getInstalledModules_objects:
  assumes "readFile fs ''package.json'' = Inr txt" and "json_parse txt = Some (JObject ps)"
    and "map_of (rev ps) ''dependencies'' = Some (JObject ds)"
    and "map_of (rev ps) ''devDependencies'' = Some (JObject dds)"
  shows "getInstalledModules json_parse fs =
           Inr (map (\<lambda>k. \<lparr>name = k, dev = False\<rparr>) (js_own_keys ds)
                @ map (\<lambda>k. \<lparr>name = k, dev = True\<rparr>) (js_own_keys dds))"
  using assms by (simp add: getInstalledModules_read)

theorem getInstalledModules_objects_witness:
  "getInstalledModules
     (\<lambda>_. Some (JObject [(''dependencies'', JObject [(''b'', JString ''*''), (''10'', JString ''*''),
                                                     (''2'', JString ''*''), (''a'', JString ''*'')]),
                          (''devDependencies'', JObject [(''mocha'', JString ''*'')])]))
     (project_files [(''package.json'', ''{}'')])
   = Inr [\<lparr>name = ''2'', dev = False\<rparr>, \<lparr>name = ''10'', dev = False\<rparr>, \<lparr>name = ''b'', dev = False\<rparr>,
          \<lparr>name = ''a'', dev = False\<rparr>, \<lparr>name = ''mocha'', dev = True\<rparr>]"
proof -
  have "readFile (project_files [(''package.json'', ''{}'')]) ''package.json'' = Inr ''{}''"
    by (simp add: readFile_def read_file_sync_def file_text_def project_files_def)
  from getInstalledModules_objects [OF this] show ?thesis
    by (simp add: js_own_keys_def is_index_key_def js_array_index_def is_digit_def)
qed

text \<open>
  C21. The reader fails in exactly three ways: \<open>package.json\<close> cannot be read, its
  text is not JSON, or it is the JSON value \<open>null\<close> (reading \<open>dependencies\<close>
  throws). A document without dependency sections, or one that is not an object,
  yields a list and no error.
\<close>

theorem getInstalledModules_Inl_iff:
  "getInstalledModules json_parse fs = Inl e \<longleftrightarrow>
     (file_text fs ''package.json'' = None \<and> e = ReadError ''package.json'')
     \<or> (\<exists>txt. file_text fs ''package.json'' = Some txt \<and> json_parse txt = None \<and> e = SyntaxError)
     \<or> (\<exists>txt. file_text fs ''package.json'' = Some txt \<and> json_parse txt = Some JNull
          \<and> e = TypeError ''dependencies'')"
proof (cases "file_text fs ''package.json''")
  case None
  then show ?thesis
    by (auto simp: getInstalledModules_def readFile_def read_file_sync_def)
next
  case (Some raw)
  show ?thesis
  proof (cases "json_parse raw")
    case None
    with Some show ?thesis
      by (auto simp: getInstalledModules_def readFile_def read_file_sync_def)
  next
    case (Some content)
    show ?thesis
    proof (cases "content = JNull")
      case True
      with Some \<open>file_text fs ''package.json'' = Some raw\<close> show ?thesis
        by (auto simp: getInstalledModules_def readFile_def read_file_sync_def)
    next
      case False
      then obtain deps devDeps where "json_get content ''dependencies'' = Inr deps"
        and "json_get content ''devDependencies'' = Inr devDeps"
        using json_get_not_null by blast
      with Some False \<open>file_text fs ''package.json'' = Some raw\<close> show ?thesis
        by (auto simp: getInstalledModules_def readFile_def read_file_sync_def)
    qed
  qed
qed

text \<open>
  C30. A section that is a string, not an object, is not rejected: \<open>for-in\<close>
  enumerates its character positions, and the reader reports the modules
  \<open>"0"\<close>, \<open>"1"\<close>, \<dots>, one per character.
\<close>

theorem getInstalledModules_string_section:
  assumes "readFile fs ''package.json'' = Inr txt" and "json_parse txt = Some (JObject ps)"
    and "map_of (rev ps) ''dependencies'' = Some (JString s)"
    and "map_of (rev ps) ''devDependencies'' = None"
  shows "getInstalledModules json_parse fs =
           Inr (map (\<lambda>i. \<lparr>name = decimal i, dev = False\<rparr>) [0..<length s])"
  using assms by (simp add: getInstalledModules_read)

theorem getInstalledModules_string_section_witness:
  "getInstalledModules (\<lambda>_. Some (JObject [(''dependencies'', JString ''abc'')]))
     (project_files [(''package.json'', ''{}'')])
   = Inr [\<lparr>name = ''0'', dev = False\<rparr>, \<lparr>name = ''1'', dev = False\<rparr>, \<lparr>name = ''2'', dev = False\<rparr>]"
proof -
  have "readFile (project_files [(''package.json'', ''{}'')]) ''package.json'' = Inr ''{}''"
    by (simp add: readFile_def read_file_sync_def file_text_def project_files_def)
  from getInstalledModules_string_section [OF this, of "\<lambda>_. Some (JObject [(''dependencies'', JString ''abc'')])"]
  show ?thesis by (simp add: decimal_simps upt_rec)
qed

end
