(* ===== verification/Commands.thy ===== *)
theory Commands
  imports JsString
begin

text \<open>
  TrustGate and the package-manager actions of \<open>src/helpers.js\<close>:
  \<open>installModule\<close> (lines 50 to 66), \<open>uninstallModule\<close> (lines 70 to 81),
  \<open>runCommand\<close> (lines 87 to 90), the spinners \<open>startSpinner\<close> and
  \<open>stopSpinner\<close> (lines 96 to 112), \<open>reinstall\<close> (lines 192 to 196) and
  \<open>isModulePopular\<close> (lines 205 to 212).

  Effects are explicit. The world is the trace of observable events: a spinner
  started or stopped, a line printed, a shell command run by \<open>sync-exec\<close>, an HTTP
  request made by \<open>sync-request\<close>. The two external services are an environment
  \<open>env\<close>: the exit status of each command, and whether a request reaches its host
  (\<open>sync-request\<close> throws when it does not). An action returns its result, or the
  error it throws, together with the trace it produced up to that point.
  The secure-mode flag (\<open>secureMode\<close>, lines 200 and 201, set from the command
  line) is a parameter of \<open>installModule\<close>.

  \<open>isModulePopular\<close> is declared with the parameter \<open>({name, dev})\<close> and called
  with a string, so it requests the statistics of the module \<open>undefined\<close>; its
  callback is passed where \<open>sync-request\<close> expects options, and the function
  returns nothing. In secure mode \<open>!isModulePopular(name)\<close> is therefore always
  true and no module is ever installed.
\<close>

section \<open>Events, environment, actions\<close>

datatype color = Green | Red | Yellow

datatype log_symbol = SymError | SymWarning | SymSuccess

datatype event =
    SpinnerStart string color
  | SpinnerStop
  | ConsoleLog log_symbol string
  | Exec string
  | HttpGet string

type_synonym world = "event list"

record env =
  exec_status :: "string \<Rightarrow> int"
  http_reaches :: "string \<Rightarrow> bool"

type_synonym 'a action = "world \<Rightarrow> (error + 'a) \<times> world"

section \<open>Definitions\<close>

definition startSpinner :: "string \<Rightarrow> color \<Rightarrow> world \<Rightarrow> world" where
  "startSpinner message type w = w @ [SpinnerStart message type]"

text \<open>
  \<open>stopSpinner(spinner, message, type)\<close>: no line when the message is missing
  or empty; \<open>red\<close> prints the error symbol, \<open>yellow\<close> the warning symbol, any other
  type the success symbol.
\<close>

definition stopSpinner :: "string option \<Rightarrow> color option \<Rightarrow> world \<Rightarrow> world" where
  "stopSpinner message type w =
     (let w = w @ [SpinnerStop] in
      case message of
        None \<Rightarrow> w
      | Some msg \<Rightarrow>
          if msg = [] then w
          else (let symbol = (if type = Some Red then SymError
                              else if type = Some Yellow then SymWarning
                              else SymSuccess)
                in w @ [ConsoleLog symbol msg]))"

definition runCommand :: "env \<Rightarrow> string \<Rightarrow> world \<Rightarrow> bool \<times> world" where
  "runCommand e command w = (exec_status e command = 0, w @ [Exec command])"

definition popularity_url :: "string \<Rightarrow> string" where
  "popularity_url n = ''https://apa.npmjs.org/downloads/point/last-month/'' @ n"

definition isModulePopular :: "env \<Rightarrow> jsval \<Rightarrow> jsval action" where
  "isModulePopular e arg w =
     (case js_get arg ''name'' of
        Inl err \<Rightarrow> (Inl err, w)
      | Inr name_val \<Rightarrow>
          (case js_get arg ''dev'' of
             Inl err \<Rightarrow> (Inl err, w)
           | Inr _ \<Rightarrow>
               (let url = popularity_url (js_to_string name_val);
                    w = w @ [HttpGet url]
                in if http_reaches e url then (Inr JsUndefined, w)
                   else (Inl (NetworkError url), w))))"

definition install_command :: "module_ref \<Rightarrow> string" where
  "install_command m = ''npm install '' @ name m @ '' --save'' @ (if dev m then ''-dev'' else [])"

definition install_message :: "module_ref \<Rightarrow> string" where
  "install_message m = name m @ '' installed'' @ (if dev m then '' in devDependencies'' else [])"

definition installModule :: "env \<Rightarrow> bool \<Rightarrow> module_ref \<Rightarrow> unit action" where
  "installModule e secureMode m w =
     (let w = startSpinner (''Installing '' @ name m) Green w;
          proceed = (\<lambda>w. let (success, w) = runCommand e (install_command m) w
                         in (Inr (), if success then stopSpinner (Some (install_message m)) (Some Green) w
                                     else stopSpinner (Some (name m @ '' installation failed'')) (Some Yellow) w))
      in if secureMode then
           (case isModulePopular e (JsString (name m)) w of
              (Inl err, w) \<Rightarrow> (Inl err, w)
            | (Inr popular, w) \<Rightarrow>
                if \<not> js_truthy popular
                then (Inr (), stopSpinner (Some (name m @ '' not trusted'')) (Some Yellow) w)
                else proceed w)
         else proceed w)"

definition uninstall_command :: "module_ref \<Rightarrow> string" where
  "uninstall_command m = ''npm uninstall '' @ name m @ '' --save'' @ (if dev m then ''-dev'' else [])"

definition uninstall_message :: "module_ref \<Rightarrow> string" where
  "uninstall_message m = name m @ '' removed'' @ (if dev m then '' from devDependencies'' else [])"

definition uninstallModule :: "env \<Rightarrow> module_ref \<Rightarrow> world \<Rightarrow> world" where
  "uninstallModule e m w =
     (let w = startSpinner (''Uninstalling '' @ name m) Red w;
          (_, w) = runCommand e (uninstall_command m) w
      in stopSpinner (Some (uninstall_message m)) (Some Red) w)"

definition reinstall :: "env \<Rightarrow> world \<Rightarrow> world" where
  "reinstall e w =
     (let w = startSpinner ''Cleaning up'' Green w;
          (_, w) = runCommand e ''npm install'' w
      in stopSpinner None None w)"

text \<open>The commands an event trace has run.\<close>

fun commands_of :: "world \<Rightarrow> string list" where
  "commands_of [] = []"
| "commands_of (Exec c # es) = c # commands_of es"
| "commands_of (_ # es) = commands_of es"

section \<open>Lemmas\<close>

lemma commands_of_append [simp]: "commands_of (xs @ ys) = commands_of xs @ commands_of ys"
  by (induction xs rule: commands_of.induct) auto

lemma commands_of_concat [simp]: "commands_of (concat xss) = concat (map commands_of xss)"
  by (induction xss) simp_all

lemma commands_of_log_if [simp]:
  "commands_of ((if c then ConsoleLog a x else ConsoleLog b y) # es) = commands_of es"
  by simp

lemma commands_of_stopSpinner [simp]: "commands_of (stopSpinner msg ty w) = commands_of w"
  by (simp add: stopSpinner_def Let_def split: option.split)

lemma commands_of_startSpinner [simp]: "commands_of (startSpinner msg ty w) = commands_of w"
  by (simp add: startSpinner_def)

lemma isModulePopular_string:
  "isModulePopular e (JsString s) w =
     (if http_reaches e (popularity_url ''undefined'')
      then (Inr JsUndefined, w @ [HttpGet (popularity_url ''undefined'')])
      else (Inl (NetworkError (popularity_url ''undefined'')), w @ [HttpGet (popularity_url ''undefined'')]))"
  by (simp add: isModulePopular_def js_array_index_def is_digit_def Let_def)

lemma stopSpinner_Some:
  "msg \<noteq> [] \<Longrightarrow> stopSpinner (Some msg) (Some ty) w =
     w @ [SpinnerStop, ConsoleLog (case ty of Red \<Rightarrow> SymError | Yellow \<Rightarrow> SymWarning | Green \<Rightarrow> SymSuccess) msg]"
  by (cases ty) (simp_all add: stopSpinner_def)

lemma install_message_nonempty: "install_message m \<noteq> []"
  by (simp add: install_message_def)

lemma uninstall_message_nonempty: "uninstall_message m \<noteq> []"
  by (simp add: uninstall_message_def)

lemma installModule_secure_eq:
  "installModule e True m w =
     (let w1 = w @ [SpinnerStart (''Installing '' @ name m) Green, HttpGet (popularity_url ''undefined'')]
      in if http_reaches e (popularity_url ''undefined'')
         then (Inr (), w1 @ [SpinnerStop, ConsoleLog SymWarning (name m @ '' not trusted'')])
         else (Inl (NetworkError (popularity_url ''undefined'')), w1))"
  by (simp add: installModule_def isModulePopular_string startSpinner_def stopSpinner_Some Let_def)

lemma installModule_plain_eq:
  "installModule e False m w =
     (Inr (), w @ [SpinnerStart (''Installing '' @ name m) Green, Exec (install_command m), SpinnerStop,
                   if exec_status e (install_command m) = 0
                   then ConsoleLog SymSuccess (install_message m)
                   else ConsoleLog SymWarning (name m @ '' installation failed'')])"
  by (simp add: installModule_def runCommand_def startSpinner_def stopSpinner_Some
      install_message_nonempty Let_def)

lemma uninstallModule_eq:
  "uninstallModule e m w =
     w @ [SpinnerStart (''Uninstalling '' @ name m) Red, Exec (uninstall_command m), SpinnerStop,
          ConsoleLog SymError (uninstall_message m)]"
  by (simp add: uninstallModule_def runCommand_def startSpinner_def stopSpinner_Some
      uninstall_message_nonempty Let_def)

text \<open>A command names its module and its section: distinct modules give distinct commands.\<close>

lemma install_command_eq_iff:
  "install_command m = install_command m' \<longleftrightarrow> name m = name m' \<and> dev m = dev m'"
proof (cases "dev m = dev m'")
  case True
  then show ?thesis by (simp add: install_command_def)
next
  case False
  then have "last (install_command m) \<noteq> last (install_command m')"
    by (cases "dev m") (simp_all add: install_command_def)
  then have "install_command m \<noteq> install_command m'" by auto
  with False show ?thesis by simp
qed

lemma uninstall_command_eq_iff:
  "uninstall_command m = uninstall_command m' \<longleftrightarrow> name m = name m' \<and> dev m = dev m'"
proof (cases "dev m = dev m'")
  case True
  then show ?thesis by (simp add: uninstall_command_def)
next
  case False
  then have "last (uninstall_command m) \<noteq> last (uninstall_command m')"
    by (cases "dev m") (simp_all add: uninstall_command_def)
  then have "uninstall_command m \<noteq> uninstall_command m'" by auto
  with False show ?thesis by simp
qed

lemma install_ne_uninstall_command: "install_command m \<noteq> uninstall_command m'"
  by (simp add: install_command_def uninstall_command_def)

section \<open>Properties\<close>

text \<open>
  C12. Outside secure mode \<open>installModule\<close> runs exactly one command,
  \<open>npm install <name> --save\<close> (\<open>--save-dev\<close> for a development module), and
  reports success or failure from its exit status; it never throws.
\<close>

theorem installModule_trace:
  "installModule e False m w =
     (Inr (), w @ [SpinnerStart (''Installing '' @ name m) Green, Exec (install_command m), SpinnerStop,
                   if exec_status e (install_command m) = 0
                   then ConsoleLog SymSuccess (install_message m)
                   else ConsoleLog SymWarning (name m @ '' installation failed'')])"
  by (rule installModule_plain_eq)

text \<open>
  C25. \<open>uninstallModule\<close> ignores the exit status of \<open>npm uninstall\<close>: it reports
  the module as removed whether the command succeeded or failed.
\<close>

theorem uninstallModule_ignores_status:
  "uninstallModule e m w =
     w @ [SpinnerStart (''Uninstalling '' @ name m) Red, Exec (uninstall_command m), SpinnerStop,
          ConsoleLog SymError (uninstall_message m)]"
  by (rule uninstallModule_eq)

text \<open>
  C32. The popularity check of secure mode asks for the downloads of the module
  \<open>undefined\<close>, never of the module being installed, and never trusts a module:
  when the request returns, the module is reported as not trusted; when it fails, the
  exception escapes \<open>installModule\<close>.
\<close>

theorem installModule_secure_trace:
  "installModule e True m w =
     (if http_reaches e (popularity_url ''undefined'')
      then (Inr (), w @ [SpinnerStart (''Installing '' @ name m) Green,
                         HttpGet (popularity_url ''undefined''), SpinnerStop,
                         ConsoleLog SymWarning (name m @ '' not trusted'')])
      else (Inl (NetworkError (popularity_url ''undefined'')),
            w @ [SpinnerStart (''Installing '' @ name m) Green, HttpGet (popularity_url ''undefined'')]))"
  by (simp add: installModule_secure_eq Let_def)

end
