(* ===== verification/Spinner.thy ===== *)
theory Spinner
  imports Commands
begin

text \<open>
  The protocol the console output of \<open>src/helpers.js\<close> follows. A spinner of
  \<open>ora\<close> is started by \<open>startSpinner\<close> (lines 96 to 102) and stopped by
  \<open>stopSpinner\<close> (lines 104 to 112); shell commands and HTTP requests run while it
  spins, and lines are printed only when no spinner spins, so that the output is never
  mixed with the spinner's frames. The protocol is a step relation on the state of the
  terminal, idle or spinning with a text, one rule per kind of event; \<open>spin_run\<close>
  is its closure over a trace. Both are executable (\<^theory_text>\<open>code_pred\<close>).

  The lemmas show that every action of \<open>Commands\<close> that returns follows the
  protocol from idle to idle, that is, it stops every spinner it starts, and that an
  \<open>installModule\<close> that throws leaves its spinner spinning.
\<close>

section \<open>The protocol\<close>

datatype spinner_state = Idle | Spinning string

inductive spin_step :: "spinner_state \<Rightarrow> event \<Rightarrow> spinner_state \<Rightarrow> bool" where
  start: "spin_step Idle (SpinnerStart msg col) (Spinning msg)"
| stop: "spin_step (Spinning msg) SpinnerStop Idle"
| log: "spin_step Idle (ConsoleLog symb line) Idle"
| exec: "spin_step (Spinning msg) (Exec cmd) (Spinning msg)"
| http: "spin_step (Spinning msg) (HttpGet url) (Spinning msg)"

inductive spin_run :: "spinner_state \<Rightarrow> event list \<Rightarrow> spinner_state \<Rightarrow> bool" where
  nil: "spin_run s [] s"
| cons: "spin_step s e t \<Longrightarrow> spin_run t es u \<Longrightarrow> spin_run s (e # es) u"

code_pred spin_step .

code_pred spin_run .

inductive_simps spin_run_Nil [simp]: "spin_run s [] u"

inductive_simps spin_run_Cons [simp]: "spin_run s (e # es) u"

inductive_simps spin_step_SpinnerStart [simp]: "spin_step s (SpinnerStart msg col) t"

inductive_simps spin_step_SpinnerStop [simp]: "spin_step s SpinnerStop t"

inductive_simps spin_step_ConsoleLog [simp]: "spin_step s (ConsoleLog symb line) t"

inductive_simps spin_step_Exec [simp]: "spin_step s (Exec cmd) t"

inductive_simps spin_step_HttpGet [simp]: "spin_step s (HttpGet url) t"

inductive_cases spin_step_from_Idle: "spin_step Idle e t"

section \<open>Lemmas\<close>

lemma spin_step_deterministic: "spin_step s e t \<Longrightarrow> spin_step s e t' \<Longrightarrow> t = t'"
  by (induction rule: spin_step.induct) auto

lemma spin_run_append:
  "spin_run s (xs @ ys) u \<longleftrightarrow> (\<exists>t. spin_run s xs t \<and> spin_run t ys u)"
  by (induction xs arbitrary: s) auto

lemma spin_run_trans: "spin_run s xs t \<Longrightarrow> spin_run t ys u \<Longrightarrow> spin_run s (xs @ ys) u"
  by (auto simp: spin_run_append)

text \<open>From idle, a line is printed only after every started spinner has stopped.\<close>

lemma spin_run_idle_log:
  "spin_run Idle (xs @ ConsoleLog symb line # ys) u \<Longrightarrow> spin_run Idle xs Idle"
  by (auto simp: spin_run_append)

lemma install_segment_protocol:
  "spin_run Idle [SpinnerStart p col, Exec c, SpinnerStop,
                  if ok then ConsoleLog SymSuccess l1 else ConsoleLog SymWarning l2] Idle"
  by simp

lemma uninstall_segment_protocol:
  "spin_run Idle [SpinnerStart p col, Exec c, SpinnerStop, ConsoleLog symb l] Idle"
  by simp

text \<open>The trace an action adds to the world, with the state it leaves the terminal in.\<close>

lemma installModule_plain_protocol:
  "\<exists>seg. installModule e False m w = (Inr (), w @ seg) \<and> spin_run Idle seg Idle"
  using installModule_plain_eq [of e m w] install_segment_protocol by blast

lemma installModule_protocol:
  "\<exists>seg t. snd (installModule e s m w) = w @ seg \<and> spin_run Idle seg t
     \<and> (case fst (installModule e s m w) of
          Inr _ \<Rightarrow> t = Idle
        | Inl _ \<Rightarrow> t = Spinning (''Installing '' @ name m))"
proof (cases s)
  case True
  then show ?thesis by (simp add: installModule_secure_eq Let_def)
next
  case False
  then have "s = False" by simp
  with installModule_plain_protocol [of e m w] show ?thesis by auto
qed

lemma uninstallModule_protocol:
  "\<exists>seg. uninstallModule e m w = w @ seg \<and> spin_run Idle seg Idle"
  using uninstallModule_eq [of e m w] uninstall_segment_protocol by blast

section \<open>Properties\<close>

text \<open>
  C29. Invariant: each helper that drives a spinner, \<open>installModule\<close> when it returns,
  \<open>uninstallModule\<close> and \<open>reinstall\<close>, appends to the trace a segment that follows
  the protocol from idle to idle: every spinner it starts is stopped before it returns
  and nothing is printed while it spins. An \<open>installModule\<close> that throws leaves
  the terminal with its spinner still spinning.
\<close>

theorem helpers_keep_protocol:
  "(\<exists>seg t. snd (installModule e s m w) = w @ seg \<and> spin_run Idle seg t
      \<and> (case fst (installModule e s m w) of
           Inr _ \<Rightarrow> t = Idle
         | Inl _ \<Rightarrow> t = Spinning (''Installing '' @ name m)))
   \<and> (\<exists>seg. uninstallModule e m w = w @ seg \<and> spin_run Idle seg Idle)
   \<and> (\<exists>seg. reinstall e w = w @ seg \<and> spin_run Idle seg Idle)"
proof (intro conjI)
  show "\<exists>seg t. snd (installModule e s m w) = w @ seg \<and> spin_run Idle seg t
      \<and> (case fst (installModule e s m w) of
           Inr _ \<Rightarrow> t = Idle
         | Inl _ \<Rightarrow> t = Spinning (''Installing '' @ name m))"
    by (rule installModule_protocol)
next
  show "\<exists>seg. uninstallModule e m w = w @ seg \<and> spin_run Idle seg Idle"
    by (rule uninstallModule_protocol)
next
  show "\<exists>seg. reinstall e w = w @ seg \<and> spin_run Idle seg Idle"
    by (simp add: reinstall_def startSpinner_def runCommand_def stopSpinner_def)
qed

end
