(* ===== verification/Pipeline.thy ===== *)
theory Pipeline
  imports Extractor Dedup
begin

text \<open>
  FileDiscovery and the scan of the project: \<open>getFiles\<close> (\<open>src/helpers.js\<close>,
  lines 117 to 119) and \<open>getUsedModules\<close> (lines 34 to 44).

  \<open>glob.sync("**/*.js", {ignore: ['node_modules/**/*']})\<close> (glob 7) collects the
  entries whose path matches the pattern, files and directories alike (the option
  \<open>nodir\<close> is not set), keeps each path once, sorts the paths with
  \<open>alphasort\<close> (\<open>localeCompare(_, 'en')\<close>, the collation of the file system
  record) and drops the ignored ones. A path matches \<open>**/*.js\<close> when none of its
  segments is empty or starts with a dot (glob does not enter or return hidden
  entries by default) and its last segment ends with \<open>.js\<close>; it is ignored when its
  first segment is \<open>node_modules\<close> and something follows. A \<open>node_modules\<close>
  directory below the top level is not ignored.

  \<open>getUsedModules\<close> reads every listed path, marks its modules as development
  modules when the path is a test file, and deduplicates the whole list. The lemmas
  give its result exactly: the exception of the first listed path that is not a
  readable file (a directory named like a script, a file without read permission), or
  the deduplicated matches of every file. The listing is sorted, without repetitions,
  and depends only on the set of paths when the collation ranks no two listed paths
  equal.
\<close>

section \<open>Definitions\<close>

fun split_path :: "string \<Rightarrow> string list" where
  "split_path [] = [[]]"
| "split_path (c # cs) =
     (let segs = split_path cs
      in if c = CHR ''/'' then [] # segs else (c # hd segs) # tl segs)"

definition glob_matches_js :: "path \<Rightarrow> bool" where
  "glob_matches_js p =
     (let segs = split_path p
      in list_all (\<lambda>s. s \<noteq> [] \<and> hd s \<noteq> CHR ''.'') segs \<and> js_ends_with (last segs) ''.js'')"

definition glob_ignored :: "path \<Rightarrow> bool" where
  "glob_ignored p = (case split_path p of seg # rest \<Rightarrow> seg = ''node_modules'' \<and> rest \<noteq> [] | [] \<Rightarrow> False)"

definition getFiles :: "filesystem \<Rightarrow> path list" where
  "getFiles fs =
     (let all = remdups (filter glob_matches_js (map fst (entries fs)));
          all = Sorting_Algorithms.sort (alphasort fs) all
      in filter (\<lambda>m. \<not> glob_ignored m) all)"

text \<open>The loop of lines 37 to 41, which pushes \<open>{name, dev}\<close> for every module of every file.\<close>

fun collect_used :: "filesystem \<Rightarrow> path list \<Rightarrow> error + module_ref list" where
  "collect_used fs [] = Inr []"
| "collect_used fs (fileName # files) =
     (case getModulesFromFile fs fileName of
        Inl e \<Rightarrow> Inl e
      | Inr modulesFromFile \<Rightarrow>
          (let is_dev = isTestFile fileName in
           case collect_used fs files of
             Inl e \<Rightarrow> Inl e
           | Inr usedModules \<Rightarrow>
               Inr (map (\<lambda>n. \<lparr>name = n, dev = is_dev\<rparr>) modulesFromFile @ usedModules)))"

definition getUsedModules :: "filesystem \<Rightarrow> error + module_ref list" where
  "getUsedModules fs =
     (case collect_used fs (getFiles fs) of
        Inl e \<Rightarrow> Inl e
      | Inr usedModules \<Rightarrow> Inr (deduplicate usedModules))"

text \<open>Joining the segments again, the inverse of \<open>split_path\<close>.\<close>

fun join_path :: "string list \<Rightarrow> string" where
  "join_path [] = []"
| "join_path [s] = s"
| "join_path (s # ss) = s @ CHR ''/'' # join_path ss"

text \<open>What one file contributes, computed from its text.\<close>

definition file_modules :: "path \<Rightarrow> text_content \<Rightarrow> module_ref list" where
  "file_modules p c = map (\<lambda>n. \<lparr>name = n, dev = isTestFile p\<rparr>) (map strip_require (require_matches c))"

section \<open>Lemmas\<close>

lemma split_path_nonempty [simp]: "split_path p \<noteq> []"
  by (cases p) (simp_all add: Let_def)

lemma getFiles_sort:
  "getFiles fs = Sorting_Algorithms.sort (alphasort fs)
     (filter (\<lambda>p. \<not> glob_ignored p) (remdups (filter glob_matches_js (map fst (entries fs)))))"
  by (simp add: getFiles_def filter_sort)

lemma getFiles_iff:
  "p \<in> set (getFiles fs) \<longleftrightarrow> p \<in> fst ` set (entries fs) \<and> glob_matches_js p \<and> \<not> glob_ignored p"
  by (auto simp: getFiles_def)

lemma getModulesFromFile_text:
  "file_text fs p = Some c \<Longrightarrow> getModulesFromFile fs p = Inr (map strip_require (require_matches c))"
  by (simp add: getModulesFromFile_def read_file_sync_def modules_of_content_matches)

lemma getModulesFromFile_no_text:
  "file_text fs p = None \<Longrightarrow> getModulesFromFile fs p = Inl (ReadError p)"
  by (simp add: getModulesFromFile_def read_file_sync_def)

text \<open>The loop stops at the first path it cannot read; otherwise it collects every file.\<close>

lemma collect_used_eq:
  "collect_used fs files =
     (case find (\<lambda>p. file_text fs p = None) files of
        Some p \<Rightarrow> Inl (ReadError p)
      | None \<Rightarrow> Inr (concat (map (\<lambda>p. file_modules p (the (file_text fs p))) files)))"
proof (induction files)
  case Nil
  then show ?case by simp
next
  case (Cons p files)
  show ?case
  proof (cases "file_text fs p")
    case None
    then show ?thesis by (simp add: getModulesFromFile_no_text)
  next
    case (Some c)
    with Cons.IH show ?thesis
      by (simp add: getModulesFromFile_text file_modules_def Let_def split: option.split)
  qed
qed

lemma split_path_join: "join_path (split_path p) = p"
proof (induction p)
  case Nil
  then show ?case by simp
next
  case (Cons c cs)
  obtain s ss where segs: "split_path cs = s # ss"
    using split_path_nonempty by (metis list.exhaust)
  show ?case
  proof (cases "c = CHR ''/''")
    case True
    with Cons.IH segs show ?thesis by simp
  next
    case False
    with Cons.IH segs show ?thesis by (cases ss) simp_all
  qed
qed

lemma suffix_last_join: "xs \<noteq> [] \<Longrightarrow> suffix (last xs) (join_path xs)"
proof (induction xs rule: join_path.induct)
  case (3 s t ts)
  then have "suffix (last (t # ts)) (join_path (t # ts))" by simp
  then show ?case by (auto simp: suffix_def)
qed simp_all

lemma suffix_last_split_path: "suffix (last (split_path p)) p"
  using suffix_last_join [of "split_path p"] by (simp add: split_path_join)

lemma split_path_dir:
  "CHR ''/'' \<notin> set a \<Longrightarrow> split_path (a @ CHR ''/'' # r) = a # split_path r"
  by (induction a) (auto simp: Let_def)

lemma glob_ignored_node_modules: "glob_ignored (''node_modules/'' @ r)"
proof -
  have "split_path (''node_modules'' @ CHR ''/'' # r) = ''node_modules'' # split_path r"
    by (rule split_path_dir) simp
  then show ?thesis by (simp add: glob_ignored_def)
qed

lemma glob_matches_js_suffix: "glob_matches_js p \<Longrightarrow> suffix ''.js'' p"
  using suffix_last_split_path [of p]
  by (auto simp: glob_matches_js_def Let_def js_ends_with_suffix intro: suffix_order.trans)

lemma getUsedModules_Inr: "getUsedModules fs = Inr used \<Longrightarrow> \<exists>ms. used = deduplicate ms"
  by (auto simp: getUsedModules_def split: sum.splits)

section \<open>Properties\<close>

text \<open>
  C31. The files scanned are files of the project whose path ends in \<open>.js\<close>, and
  none lies under the top-level \<open>node_modules\<close> directory.
\<close>

theorem getFiles_scope:
  "set (getFiles fs) \<subseteq> {p \<in> fst ` set (entries fs). suffix ''.js'' p \<and> \<not> prefix ''node_modules/'' p}
   \<and> distinct (getFiles fs) \<and> Sorting_Algorithms.sorted (alphasort fs) (getFiles fs)"
proof (intro conjI)
  show "set (getFiles fs) \<subseteq> {p \<in> fst ` set (entries fs). suffix ''.js'' p \<and> \<not> prefix ''node_modules/'' p}"
  proof
    fix p assume p: "p \<in> set (getFiles fs)"
    then have listed: "p \<in> fst ` set (entries fs)" and m: "glob_matches_js p" and ni: "\<not> glob_ignored p"
      by (simp_all add: getFiles_iff)
    have "\<not> prefix ''node_modules/'' p"
    proof
      assume "prefix ''node_modules/'' p"
      then obtain r where "p = ''node_modules/'' @ r" by (auto simp: prefix_def)
      with ni glob_ignored_node_modules show False by simp
    qed
    with listed glob_matches_js_suffix [OF m]
    show "p \<in> {p \<in> fst ` set (entries fs). suffix ''.js'' p \<and> \<not> prefix ''node_modules/'' p}"
      by simp
  qed
next
  show "distinct (getFiles fs)"
    by (simp add: getFiles_sort)
next
  show "Sorting_Algorithms.sorted (alphasort fs) (getFiles fs)"
    by (simp only: getFiles_sort sorted_sort)
qed

text \<open>
  C18. The scan fails exactly when a listed path is not a readable file, with the
  exception of the first such path in glob's order, and the whole run with it;
  otherwise its result is the deduplicated list of what each listed script
  contributes, every match of each file cut down by the stripping of lines 142 to 144
  and marked with whether the file is a test file.
\<close>

theorem getUsedModules_eq:
  "getUsedModules fs =
     (case find (\<lambda>p. file_text fs p = None) (getFiles fs) of
        Some p \<Rightarrow> Inl (ReadError p)
      | None \<Rightarrow> Inr (deduplicate (concat (map (\<lambda>p. file_modules p (the (file_text fs p))) (getFiles fs)))))"
  by (simp add: getUsedModules_def collect_used_eq split: option.split)

text \<open>
  C19. Determinism: when the collation ranks no two distinct listed paths equal (it
  may rank other strings equal, as \<open>localeCompare\<close> does with strings that differ
  in ignorable characters only), the files are listed in the same order whatever order
  the file system enumerates its entries in, and whatever the entries hold: the listing
  depends only on the set of paths.
\<close>

theorem getFiles_deterministic:
  assumes "\<And>p q. p \<in> set (getFiles fs) \<Longrightarrow> q \<in> set (getFiles fs) \<Longrightarrow>
             compare (alphasort fs) p q = Equiv \<Longrightarrow> p = q"
    and "alphasort fs' = alphasort fs"
    and "set (map fst (entries fs')) = set (map fst (entries fs))"
  shows "getFiles fs' = getFiles fs"
proof -
  let ?sel = "\<lambda>fs. filter (\<lambda>p. \<not> glob_ignored p) (remdups (filter glob_matches_js (map fst (entries fs))))"
  have listed: "set (getFiles fs) = set (?sel fs)" by (simp add: getFiles_sort)
  have "set (?sel fs') = set (?sel fs)" using assms(3) by auto
  then have "Sorting_Algorithms.sort (alphasort fs) (?sel fs') = Sorting_Algorithms.sort (alphasort fs) (?sel fs)"
    using assms(1) by (intro sort_eq_if_antisym_on) (simp_all only: listed distinct_filter distinct_remdups)
  with assms(2) show ?thesis by (simp only: getFiles_sort)
qed

text \<open>
  A collation that ignores the soft hyphen, as \<open>localeCompare\<close> does, ranks distinct
  strings equal, and still lists two projects with the same paths alike.
\<close>

theorem getFiles_deterministic_witness:
  "getFiles \<lparr>entries = [(''a.js'', File ''x''), (''b.js'', Dir)],
             alphasort = key (filter (\<lambda>c. c \<noteq> CHR 0xAD)) default\<rparr>
     = getFiles \<lparr>entries = [(''b.js'', File ''''), (''a.js'', Unreadable)],
                 alphasort = key (filter (\<lambda>c. c \<noteq> CHR 0xAD)) default\<rparr>
   \<and> compare (key (filter (\<lambda>c. c \<noteq> CHR 0xAD)) default) ''ab.js'' (''a'' @ [CHR 0xAD] @ ''b.js'') = Equiv"
proof
  let ?cmp = "key (filter (\<lambda>c. c \<noteq> CHR 0xAD)) default"
  let ?fs = "\<lparr>entries = [(''b.js'', File ''''), (''a.js'', Unreadable)], alphasort = ?cmp\<rparr>"
  have files: "set (getFiles ?fs) = {''a.js'', ''b.js''}"
    by (auto simp: getFiles_iff glob_matches_js_def glob_ignored_def js_ends_with_def Let_def)
  have h1: "\<And>p q. p \<in> set (getFiles ?fs) \<Longrightarrow> q \<in> set (getFiles ?fs) \<Longrightarrow>
      compare (alphasort ?fs) p q = Equiv \<Longrightarrow> p = q"
    unfolding files by auto
  have h2: "alphasort \<lparr>entries = [(''a.js'', File ''x''), (''b.js'', Dir)], alphasort = ?cmp\<rparr> = alphasort ?fs"
    by simp
  have h3: "set (map fst (entries \<lparr>entries = [(''a.js'', File ''x''), (''b.js'', Dir)], alphasort = ?cmp\<rparr>))
      = set (map fst (entries ?fs))" by auto
  from getFiles_deterministic [OF h1 h2 h3]
  show "getFiles \<lparr>entries = [(''a.js'', File ''x''), (''b.js'', Dir)], alphasort = ?cmp\<rparr> = getFiles ?fs" .
  show "compare ?cmp ''ab.js'' (''a'' @ [CHR 0xAD] @ ''b.js'') = Equiv" by simp
qed

end
