(* ===== verification/Module.thy ===== *)
theory Module
  imports Manifest Classifier Diff Commands Pipeline
begin

text \<open>
  The module \<open>src/helpers.js\<close> as its users see it. Loading the module reads the
  command line once: \<open>secureMode\<close> starts \<open>false\<close> and becomes \<open>true\<close> when
  \<open>argv.secure\<close> is truthy (lines 200 and 201, \<open>argv\<close> being the object
  \<open>yargs\<close> parses). It then exports seven functions (\<open>module.exports\<close>, lines
  264 to 272), which close over that flag and over the services the module requires
  (\<open>sync-exec\<close> and \<open>sync-request\<close> through \<open>env\<close>, \<open>is-builtin-module\<close>,
  \<open>JSON.parse\<close>).

  The exports are a record of operations, \<open>helpers\<close>: it is the interface a client
  of the module is written against, and \<open>module_exports\<close> is its one
  implementation. The lemmas give each field in terms of the component it exports.
\<close>

section \<open>Definitions\<close>

definition secureMode_flag :: "jsval \<Rightarrow> error + bool" where
  "secureMode_flag argv =
     (let secureMode = False in
      case js_get argv ''secure'' of
        Inl err \<Rightarrow> Inl err
      | Inr v \<Rightarrow> Inr (if js_truthy v then True else secureMode))"

record helpers =
  getInstalledModules_export :: "filesystem \<Rightarrow> error + module_ref list"
  getUsedModules_export :: "filesystem \<Rightarrow> error + module_ref list"
  filterRegistryModules_export :: "module_ref list \<Rightarrow> module_ref list"
  installModule_export :: "module_ref \<Rightarrow> unit action"
  uninstallModule_export :: "module_ref \<Rightarrow> world \<Rightarrow> world"
  diff_export :: "module_ref list \<Rightarrow> module_ref list \<Rightarrow> module_ref list"
  reinstall_export :: "world \<Rightarrow> world"

definition module_exports ::
  "env \<Rightarrow> bool \<Rightarrow> (string \<Rightarrow> bool) \<Rightarrow> (text_content \<Rightarrow> json option) \<Rightarrow> helpers" where
  "module_exports e secureMode isBuiltInModule json_parse =
     \<lparr>getInstalledModules_export = getInstalledModules json_parse,
      getUsedModules_export = getUsedModules,
      filterRegistryModules_export = filterRegistryModules isBuiltInModule,
      installModule_export = installModule e secureMode,
      uninstallModule_export = uninstallModule e,
      diff_export = diff,
      reinstall_export = reinstall e\<rparr>"

text \<open>Loading the module: the flag from the command line, then the exports.\<close>

definition load_helpers ::
  "jsval \<Rightarrow> env \<Rightarrow> (string \<Rightarrow> bool) \<Rightarrow> (text_content \<Rightarrow> json option) \<Rightarrow> error + helpers" where
  "load_helpers argv e isBuiltInModule json_parse =
     (case secureMode_flag argv of
        Inl err \<Rightarrow> Inl err
      | Inr secureMode \<Rightarrow> Inr (module_exports e secureMode isBuiltInModule json_parse))"

section \<open>Lemmas\<close>

lemma secureMode_flag_object:
  "secureMode_flag (JsObject ps) = Inr (case map_of ps ''secure'' of Some v \<Rightarrow> js_truthy v | None \<Rightarrow> False)"
  by (simp add: secureMode_flag_def split: option.split)

lemma load_helpers_object:
  "load_helpers (JsObject ps) e b json_parse
     = Inr (module_exports e (case map_of ps ''secure'' of Some v \<Rightarrow> js_truthy v | None \<Rightarrow> False) b json_parse)"
  by (simp add: load_helpers_def secureMode_flag_object)

end
