(* ===== verification/Spec2Isabelle.thy ===== *)
theory Spec2Isabelle
  imports Extractor Classifier Dedup Diff Manifest Commands Spinner Pipeline Module
begin

text \<open>
  A verification library of \<open>auto-install\<close> (\<open>src/helpers.js\<close>), the tool that
  scans the scripts of a Node.js project for \<open>require("...")\<close> calls, compares the
  modules it finds with those \<open>package.json\<close> declares, installs the missing ones
  and uninstalls the unused ones with \<open>npm\<close>.

  \<^bold>\<open>The parts of the program and the theories that model them.\<close>
  \<^item> \<open>Prelude\<close>: the record \<open>module_ref\<close> (the objects \<open>{name, dev}\<close> every helper
    passes around), the error type (\<open>ReadError\<close>, \<open>SyntaxError\<close>, \<open>TypeError\<close>,
    \<open>NetworkError\<close>: the exceptions the code can throw, as \<open>Inl\<close> values), the file
    system (its entries, each a file with its text, a directory or an unreadable file,
    and the collation \<open>alphasort\<close> glob sorts names with) and \<open>readFile\<close> /
    \<open>fs.readFileSync\<close>, which throws on anything but a readable file,
    \<open>Array.prototype.indexOf\<close> (\<open>js_array_index_of\<close>) and shared list lemmas.
  \<^item> \<open>JsString\<close>: the JavaScript semantics the helpers rely on: values
    (\<open>jsval\<close>), property reads with their \<open>TypeError\<close> on \<open>undefined\<close> and
    \<open>null\<close> (\<open>js_get\<close>, used by the destructuring parameters \<open>({name, dev})\<close>),
    \<open>ToString\<close>, truthiness, \<open>substring\<close> with its clamping and swapping,
    \<open>indexOf\<close>, \<open>replace\<close> with a string pattern, \<open>endsWith\<close>, canonical
    array-index keys and decimal numerals.
  \<^item> \<open>RequireScan\<close>: \<open>content.match(/require\((.*?)\)/g)\<close> (line 133 and 138) as the
    regular-expression engine runs it: a scan from \<open>lastIndex\<close>, the lazy group that
    stops at the first \<open>)\<close> and never crosses a line terminator, \<open>null\<close> when
    nothing matches. \<open>require_matches\<close> is a \<open>function\<close> with a termination proof
    (the input shrinks at every match and every skipped character).
  \<^item> \<open>GlobalMatch\<close>: the same call as the engine runs it, the loop of
    \<open>RegExp.prototype[@@match]\<close> over \<open>lastIndex\<close> kept as a
    \<open>while_option\<close> (\<open>match_global\<close>). It is proved to stop on every text,
    and its result is characterised against the text itself: \<open>null\<close> exactly when
    no \<open>require(\<close> is closed by a \<open>)\<close> on its line, and otherwise segments of
    the text, in order, each ending at the first \<open>)\<close> after its \<open>require(\<close>.
  \<^item> \<open>Extractor\<close>: ReferenceExtractor and ReferenceValidator:
    \<open>getModulesFromFile\<close> (lines 135 to 148) with the stripping of lines 142 to 144,
    \<open>isValidModule\<close> (lines 152 to 155) applied to a string as the code applies it,
    and \<open>isTestFile\<close> (lines 216 to 218).
  \<^item> \<open>Classifier\<close>: \<open>filterRegistryModules\<close>, \<open>removeBuiltInModules\<close>,
    \<open>removeLocalFiles\<close> (lines 159 to 181); \<open>is-builtin-module\<close> is a parameter.
  \<^item> \<open>Dedup\<close>: \<open>deduplicate\<close> and \<open>deduplicateSimilarModules\<close> (lines 231 to
    260), the loop as \<open>dedup_loop\<close> with its two arrays as accumulators.
  \<^item> \<open>Diff\<close>: \<open>diff\<close> and \<open>getNamesFromModules\<close> (lines 185 to 188, 222 to 224).
  \<^item> \<open>Manifest\<close>: ManifestReader, \<open>getInstalledModules\<close> (lines 16 to 28):
    \<open>JSON.parse\<close> as a parameter returning a \<open>json\<close> value or \<open>None\<close> (a syntax
    error), the reads of \<open>dependencies\<close> and \<open>devDependencies\<close>, and the key order of
    \<open>for-in\<close> (array indices ascending, then the other keys in insertion order, a
    repeated JSON key keeping its first position and its last value).
  \<^item> \<open>Commands\<close>: TrustGate and the package-manager actions: \<open>installModule\<close>,
    \<open>uninstallModule\<close>, \<open>runCommand\<close>, \<open>startSpinner\<close>, \<open>stopSpinner\<close>,
    \<open>reinstall\<close>, \<open>isModulePopular\<close> (lines 50 to 112, 192 to 212). The world is
    the trace of observable events (spinners, console lines, shell commands, HTTP
    requests); the environment \<open>env\<close> gives the exit status of each shell command
    (\<open>sync-exec\<close>) and whether an HTTP request reaches its host
    (\<open>sync-request\<close> throws otherwise). An action returns its result or its
    exception together with the trace produced so far.
  \<^item> \<open>Spinner\<close>: the protocol of the console (a spinner is started, commands and
    requests run while it spins, it is stopped, and lines are printed only when none
    spins) as an inductive step relation \<open>spin_step\<close> with its closure
    \<open>spin_run\<close> over traces, both executable through \<^theory_text>\<open>code_pred\<close>.
  \<^item> \<open>Module\<close>: loading the module: the flag \<open>secureMode\<close> read from
    \<open>argv.secure\<close> (lines 200 and 201) and \<open>module.exports\<close> (lines 264 to 272)
    as the record \<open>helpers\<close> of the seven exported operations closed over it.
  \<^item> \<open>Pipeline\<close>: FileDiscovery, \<open>getFiles\<close> (lines 117 to 119: the glob
    \<open>**/*.js\<close> as glob 7 computes it: matching entries, files and directories alike,
    each path once, sorted with \<open>alphasort\<close>, then \<open>node_modules/**/*\<close> dropped),
    and \<open>getUsedModules\<close> (lines 34 to 44), which reads every listed path, tags its
    modules with \<open>isTestFile\<close> and deduplicates, and throws at the first path that is
    not a readable file.
  \<^item> This theory: the Orchestrator, the entry script that calls the exported helpers.
    It is not part of the sources and is modelled from the specification, written
    against the interface \<open>helpers\<close> only: \<open>run_with\<close> computes the used modules
    (\<open>getUsedModules\<close> then \<open>filterRegistryModules\<close>), the declared ones, the
    two differences (\<open>diff_result\<close>), installs in order (\<open>install_all\<close>, stopped
    by an exception) and uninstalls in order (\<open>uninstall_all\<close>). \<open>run\<close> is
    \<open>run_with\<close> over \<open>module_exports\<close> in a given mode, and \<open>main\<close> loads
    the module from the command line first.

  \<^bold>\<open>What the lemmas show.\<close> Deduplication returns each input module exactly once and
  equals a declarative first-occurrence reference; \<open>diff\<close> refines set difference
  on names, ignores the partition and keeps order and flags; the classifier is a
  filter by a registry predicate; the extractor inverts rendering for well-formed
  literal references (a round trip) and reports the inside of any other argument; the
  validator, called with a string, accepts everything; the match loop returns on every
  text, returns \<open>null\<close> exactly when the text holds no reference closed on its line,
  and its matches are the lazy, non-overlapping segments the pattern describes; the
  manifest reader fails exactly on an unreadable file, invalid JSON or \<open>null\<close>, and
  enumerates a string section by index; the listing is sorted, without repetitions, and
  independent of the order the file system enumerates entries in when the collation
  ranks no two listed paths equal; the scan fails exactly at the first listed path that
  is not a readable file; the actions produce exact event traces.
  End to end, a run is idempotent on a consistent project, attempts every module
  outside secure mode whatever the exit statuses, never installs in secure mode, runs no
  command twice and installs a name at most twice (once per partition), and throws,
  executing nothing, at the first unreadable listed path. A run that returns has
  stopped every spinner it started (liveness, over the protocol of \<open>Spinner\<close>),
  and its result satisfies the invariants of the data model (\<open>wf_diff_result\<close>).
  Several of these document defects:
  see the findings of the project manifest (secure mode trusts nothing and asks for
  the module \<open>undefined\<close>; a network failure in secure mode aborts the run at the
  first module to install; whatever string a script requires that is neither built in
  nor \<open>./\<close>-relative reaches \<open>npm install\<close> verbatim, shell separators,
  \<open>../\<close> paths and the empty name of \<open>require("")\<close> included;
  \<open>uninstallModule\<close> ignores failures; every declared package named like a
  built-in module is uninstalled; a directory named like a script aborts the run; a
  project without \<open>.js\<close> scripts has every declared dependency uninstalled; a
  missing module required from test and production code is installed twice).
  Every property is stated for all inputs; the concrete projects appear only in the
  witnesses that show the hypotheses can be met.

  \<^bold>\<open>Bounds and termination.\<close> No fuel is used: every loop of the code is a
  structural recursion over a finite list (files, matches, modules, keys); the
  non-structural scan \<open>require_matches\<close> terminates by the length of the remaining
  text, and the engine loop \<open>match_loop\<close> is a \<open>while_option\<close> whose result
  is computed by induction on \<open>length - lastIndex\<close>: every match moves
  \<open>lastIndex\<close> strictly forward within the text, and the first failed search ends
  the loop, so it returns \<open>Some\<close> on every text. Numbers are JavaScript integers only where they index strings and
  arrays, modelled as \<open>int\<close> with the clamping of \<open>substring\<close> written out;
  array-index keys are bounded by \<open>2^32 - 1\<close> as in the language.

  \<^bold>\<open>Not modelled.\<close> The libraries the code only calls: \<open>glob\<close> beyond the
  pattern it is given and the steps of its \<open>finish\<close> (the collation
  \<open>localeCompare(_, 'en')\<close> it sorts with is a parameter, any comparator; the
  concrete scenarios use the order of code points; a directory glob cannot list is
  absent from the entries), \<open>fs\<close> beyond reading listed files,
  \<open>is-builtin-module\<close> (a parameter), \<open>ora\<close> and \<open>log-symbols\<close> (events),
  \<open>yargs\<close> (the secure-mode flag is a parameter), \<open>JSON.parse\<close> (a parameter),
  and the callback \<open>isModulePopular\<close> passes to \<open>sync-request\<close>, which the
  library never calls since it is in the position of the options argument. The lines
  of \<open>src/helpers.js\<close> no definition maps are \<open>'use strict'\<close>, the \<open>require\<close> calls that load
  these libraries, comments and blank lines.
\<close>

section \<open>Orchestrator\<close>

text \<open>
  The entry script that calls the exported helpers of \<open>src/helpers.js\<close> is not
  part of the sources; it is modelled from the specification (section 4.9): one
  run builds the used modules (\<open>getUsedModules\<close>, then \<open>filterRegistryModules\<close>),
  the declared modules (\<open>getInstalledModules\<close>), the two differences, installs
  every module of the first in order and uninstalls every module of the second.
  An exception thrown by \<open>installModule\<close> (a failed popularity request in secure
  mode) ends the run there; a failed command does not.
\<close>

record diff_result =
  toInstall :: "module_ref list"
  toRemove :: "module_ref list"

fun install_all :: "(module_ref \<Rightarrow> unit action) \<Rightarrow> module_ref list \<Rightarrow> unit action" where
  "install_all install [] w = (Inr (), w)"
| "install_all install (m # ms) w =
     (case install m w of
        (Inl err, w) \<Rightarrow> (Inl err, w)
      | (Inr _, w) \<Rightarrow> install_all install ms w)"

fun uninstall_all :: "(module_ref \<Rightarrow> world \<Rightarrow> world) \<Rightarrow> module_ref list \<Rightarrow> world \<Rightarrow> world" where
  "uninstall_all uninstall [] w = w"
| "uninstall_all uninstall (m # ms) w = uninstall_all uninstall ms (uninstall m w)"

text \<open>The entry script, written against the exports of the module only.\<close>

definition run_with :: "helpers \<Rightarrow> filesystem \<Rightarrow> diff_result action" where
  "run_with h fs w =
     (case getUsedModules_export h fs of
        Inl err \<Rightarrow> (Inl err, w)
      | Inr used \<Rightarrow>
          (let usedModules = filterRegistryModules_export h used in
           case getInstalledModules_export h fs of
             Inl err \<Rightarrow> (Inl err, w)
           | Inr installedModules \<Rightarrow>
               (let r = \<lparr>toInstall = diff_export h usedModules installedModules,
                         toRemove = diff_export h installedModules usedModules\<rparr>
                in case install_all (installModule_export h) (toInstall r) w of
                     (Inl err, w) \<Rightarrow> (Inl err, w)
                   | (Inr _, w) \<Rightarrow> (Inr r, uninstall_all (uninstallModule_export h) (toRemove r) w))))"

text \<open>A run with the module loaded in a given mode.\<close>

definition run ::
  "env \<Rightarrow> bool \<Rightarrow> (string \<Rightarrow> bool) \<Rightarrow> (text_content \<Rightarrow> json option) \<Rightarrow> filesystem \<Rightarrow> diff_result action" where
  "run e secureMode isBuiltInModule json_parse fs =
     run_with (module_exports e secureMode isBuiltInModule json_parse) fs"

text \<open>Loading the module with the command line \<open>argv\<close>, then running the script.\<close>

definition main ::
  "jsval \<Rightarrow> env \<Rightarrow> (string \<Rightarrow> bool) \<Rightarrow> (text_content \<Rightarrow> json option) \<Rightarrow> filesystem \<Rightarrow> diff_result action" where
  "main argv e isBuiltInModule json_parse fs w =
     (case load_helpers argv e isBuiltInModule json_parse of
        Inl err \<Rightarrow> (Inl err, w)
      | Inr h \<Rightarrow> run_with h fs w)"

text \<open>
  The invariants the specification's data model states of a \<open>DiffResult\<close>: no
  \<open>(name, dev)\<close> pair twice in either list, no name in both, and no built-in or local
  name among the modules to install.
\<close>

definition wf_diff_result :: "(string \<Rightarrow> bool) \<Rightarrow> diff_result \<Rightarrow> bool" where
  "wf_diff_result isBuiltInModule r \<longleftrightarrow>
     distinct (map (\<lambda>m. (name m, dev m)) (toInstall r))
     \<and> distinct (map (\<lambda>m. (name m, dev m)) (toRemove r))
     \<and> names_of (toInstall r) \<inter> names_of (toRemove r) = {}
     \<and> list_all (\<lambda>m. registry_name isBuiltInModule (name m)) (toInstall r)"

section \<open>Lemmas\<close>

lemma install_all_plain:
  "install_all (installModule e False) ms w =
     (Inr (), w @ concat (map (\<lambda>m. [SpinnerStart (''Installing '' @ name m) Green, Exec (install_command m), SpinnerStop,
                   if exec_status e (install_command m) = 0
                   then ConsoleLog SymSuccess (install_message m)
                   else ConsoleLog SymWarning (name m @ '' installation failed'')]) ms))"
proof (induction ms arbitrary: w)
  case Nil
  then show ?case by simp
next
  case (Cons m ms)
  with installModule_plain_eq [of e m w] show ?case by simp
qed

lemma commands_install_all_plain:
  "commands_of (snd (install_all (installModule e False) ms w)) = commands_of w @ map install_command ms"
  by (simp add: install_all_plain comp_def)

lemma commands_install_all_secure:
  "commands_of (snd (install_all (installModule e True) ms w)) = commands_of w"
proof (induction ms arbitrary: w)
  case Nil
  then show ?case by simp
next
  case (Cons m ms)
  from installModule_secure_eq [of e m w] Cons.IH show ?case
    by (cases "http_reaches e (popularity_url ''undefined'')") (simp_all add: Let_def)
qed

lemma uninstall_all_eq:
  "uninstall_all (uninstallModule e) ms w =
     w @ concat (map (\<lambda>m. [SpinnerStart (''Uninstalling '' @ name m) Red, Exec (uninstall_command m), SpinnerStop,
                          ConsoleLog SymError (uninstall_message m)]) ms)"
proof (induction ms arbitrary: w)
  case Nil
  then show ?case by simp
next
  case (Cons m ms)
  with uninstallModule_eq [of e m w] show ?case by simp
qed

lemma commands_uninstall_all:
  "commands_of (uninstall_all (uninstallModule e) ms w) = commands_of w @ map uninstall_command ms"
  by (simp add: uninstall_all_eq comp_def)

lemma run_eq:
  assumes "getUsedModules fs = Inr used" and "getInstalledModules json_parse fs = Inr installed"
  shows "run e s b json_parse fs w =
     (let r = \<lparr>toInstall = diff (filterRegistryModules b used) installed,
               toRemove = diff installed (filterRegistryModules b used)\<rparr>
      in case install_all (installModule e s) (toInstall r) w of
           (Inl err, w) \<Rightarrow> (Inl err, w)
         | (Inr _, w) \<Rightarrow> (Inr r, uninstall_all (uninstallModule e) (toRemove r) w))"
  unfolding run_def run_with_def module_exports_def helpers.simps using assms by (simp add: Let_def)

lemma not_install_uninstall: "\<not> starts_with ''npm install '' (uninstall_command m)"
  by (simp add: uninstall_command_def)

text \<open>What the scan finds in a project made of a manifest and one script that requires one name.\<close>

lemma getUsedModules_single_script:
  assumes "CHR '')'' \<notin> set n" and "\<not> list_ex is_line_terminator n"
  shows "getUsedModules (project_files [(''package.json'', c), (''index.js'', require_open @ (dquote # n @ [dquote]) @ '')'')])
     = Inr [\<lparr>name = n, dev = False\<rparr>]"
proof -
  let ?s = "require_open @ (dquote # n @ [dquote]) @ '')''"
  let ?fs = "project_files [(''package.json'', c), (''index.js'', ?s)]"
  have files: "getFiles ?fs = [''index.js'']"
    by (simp add: getFiles_def project_files_def glob_matches_js_def glob_ignored_def js_ends_with_def Let_def)
  have content: "file_text ?fs ''index.js'' = Some ?s"
    by (simp add: file_text_def project_files_def)
  have "CHR '')'' \<notin> set (dquote # n @ [dquote])" "\<not> list_ex is_line_terminator (dquote # n @ [dquote])"
    using assms by (simp_all add: is_line_terminator_def)
  from require_matches_block [OF this, of "[]"]
  have m: "require_matches ?s = [?s]" by simp
  have "isTestFile ''index.js'' = False"
    by (simp add: isTestFile_def js_ends_with_def)
  with files content m strip_require_quoted [of n] show ?thesis
    by (simp add: getUsedModules_def collect_used_eq file_modules_def
        deduplicate_def deduplicateSimilarModules_def del: require_matches.simps)
qed

lemma diff_result_wf:
  assumes u: "getUsedModules fs = Inr used" and i: "getInstalledModules json_parse fs = Inr installed"
  shows "wf_diff_result b \<lparr>toInstall = diff (filterRegistryModules b used) installed,
                            toRemove = diff installed (filterRegistryModules b used)\<rparr>"
proof -
  let ?U = "filterRegistryModules b used"
  from getUsedModules_Inr [OF u] obtain ms where "used = deduplicate ms" by blast
  then have "distinct (map (\<lambda>m. (name m, dev m)) ?U)"
    by (simp add: filterRegistryModules_filter distinct_map_filter distinct_pairs_deduplicate)
  moreover have "distinct (map (\<lambda>m. (name m, dev m)) installed)"
    by (rule getInstalledModules_distinct_pairs [OF i])
  moreover have "list_all (\<lambda>m. registry_name b (name m)) (diff ?U installed)"
    by (simp add: diff_filter filterRegistryModules_filter list_all_iff)
  ultimately show ?thesis
    by (simp add: wf_diff_result_def distinct_pairs_diff diff_names_disjoint)
qed

lemma install_all_protocol:
  "\<exists>seg t. snd (install_all (installModule e s) ms w) = w @ seg \<and> spin_run Idle seg t
     \<and> (fst (install_all (installModule e s) ms w) = Inr () \<longrightarrow> t = Idle)"
proof (induction ms arbitrary: w)
  case Nil
  show ?case by (rule exI [of _ "[]"]) simp
next
  case (Cons m ms)
  obtain seg1 t1 where w1: "snd (installModule e s m w) = w @ seg1" and r1: "spin_run Idle seg1 t1"
    and t1: "case fst (installModule e s m w) of Inr _ \<Rightarrow> t1 = Idle
               | Inl _ \<Rightarrow> t1 = Spinning (''Installing '' @ name m)"
    using installModule_protocol [of e s m w] by blast
  show ?case
  proof (cases "fst (installModule e s m w)")
    case (Inl err)
    then have "install_all (installModule e s) (m # ms) w = (Inl err, snd (installModule e s m w))"
      by (cases "installModule e s m w") simp
    with w1 r1 show ?thesis by auto
  next
    case (Inr u)
    then have step: "install_all (installModule e s) (m # ms) w = install_all (installModule e s) ms (w @ seg1)"
      using w1 by (cases "installModule e s m w") simp
    from Inr t1 have "t1 = Idle" by simp
    from Cons.IH [of "w @ seg1"] obtain seg2 t2 where
      "snd (install_all (installModule e s) ms (w @ seg1)) = (w @ seg1) @ seg2" "spin_run Idle seg2 t2"
      "fst (install_all (installModule e s) ms (w @ seg1)) = Inr () \<longrightarrow> t2 = Idle" by blast
    with r1 \<open>t1 = Idle\<close> step show ?thesis
      by (intro exI [of _ "seg1 @ seg2"] exI [of _ t2]) (auto intro: spin_run_trans)
  qed
qed

lemma uninstall_all_protocol: "\<exists>seg. uninstall_all (uninstallModule e) ms w = w @ seg \<and> spin_run Idle seg Idle"
proof (induction ms arbitrary: w)
  case Nil
  show ?case by (rule exI [of _ "[]"]) simp
next
  case (Cons m ms)
  obtain seg1 where "uninstallModule e m w = w @ seg1" "spin_run Idle seg1 Idle"
    using uninstallModule_protocol by blast
  moreover obtain seg2 where "uninstall_all (uninstallModule e) ms (w @ seg1) = (w @ seg1) @ seg2"
    "spin_run Idle seg2 Idle" using Cons.IH by blast
  ultimately show ?case
    by (intro exI [of _ "seg1 @ seg2"]) (auto intro: spin_run_trans)
qed

section \<open>End-to-end properties\<close>

text \<open>
  C6. Idempotence: when the manifest declares exactly the names the scan finds, a
  run installs nothing, removes nothing and leaves no trace.
\<close>

theorem run_idempotent:
  assumes "getUsedModules fs = Inr used"
    and "getInstalledModules json_parse fs = Inr installed"
    and "names_of (filterRegistryModules b used) = names_of installed"
  shows "run e s b json_parse fs w = (Inr \<lparr>toInstall = [], toRemove = []\<rparr>, w)"
proof -
  from assms(3) have "diff (filterRegistryModules b used) installed = []"
    and "diff installed (filterRegistryModules b used) = []"
    by (simp_all add: diff_empty_iff)
  with run_eq [OF assms(1) assms(2)] show ?thesis by simp
qed

theorem run_idempotent_witness:
  "getUsedModules (project_files [(''package.json'', ''{}''), (''index.js'', ''require('' @ [dquote] @ ''lodash'' @ [dquote] @ '')'')])
     = Inr [\<lparr>name = ''lodash'', dev = False\<rparr>]
   \<and> getInstalledModules (\<lambda>_. Some (JObject [(''dependencies'', JObject [(''lodash'', JString ''*'')])]))
       (project_files [(''package.json'', ''{}''), (''index.js'', ''require('' @ [dquote] @ ''lodash'' @ [dquote] @ '')'')])
     = Inr [\<lparr>name = ''lodash'', dev = False\<rparr>]
   \<and> names_of (filterRegistryModules (\<lambda>_. False) [\<lparr>name = ''lodash'', dev = False\<rparr>])
     = names_of [\<lparr>name = ''lodash'', dev = False\<rparr>]
   \<and> run \<lparr>exec_status = \<lambda>_. 0, http_reaches = \<lambda>_. True\<rparr> False (\<lambda>_. False)
       (\<lambda>_. Some (JObject [(''dependencies'', JObject [(''lodash'', JString ''*'')])]))
       (project_files [(''package.json'', ''{}''), (''index.js'', ''require('' @ [dquote] @ ''lodash'' @ [dquote] @ '')'')]) []
     = (Inr \<lparr>toInstall = [], toRemove = []\<rparr>, [])"
proof -
  have h1: "getUsedModules (project_files [(''package.json'', ''{}''), (''index.js'', ''require('' @ [dquote] @ ''lodash'' @ [dquote] @ '')'')])
     = Inr [\<lparr>name = ''lodash'', dev = False\<rparr>]"
    by code_simp
  have h2: "getInstalledModules (\<lambda>_. Some (JObject [(''dependencies'', JObject [(''lodash'', JString ''*'')])]))
       (project_files [(''package.json'', ''{}''), (''index.js'', ''require('' @ [dquote] @ ''lodash'' @ [dquote] @ '')'')])
     = Inr [\<lparr>name = ''lodash'', dev = False\<rparr>]"
    by code_simp
  have h3: "names_of (filterRegistryModules (\<lambda>_. False) [\<lparr>name = ''lodash'', dev = False\<rparr>])
     = names_of [\<lparr>name = ''lodash'', dev = False\<rparr>]"
    by (simp add: filterRegistryModules_filter registry_name_def)
  from h1 h2 h3 run_idempotent [OF h1 h2 h3, of "\<lparr>exec_status = \<lambda>_. 0, http_reaches = \<lambda>_. True\<rparr>" False "[]"]
  show ?thesis by blast
qed

text \<open>
  C10. Outside secure mode a run returns the two differences and attempts every
  install and then every uninstall, in order, whatever the exit status of each
  command: a failed command does not stop the batch.
\<close>

theorem run_attempts_every_module:
  assumes "getUsedModules fs = Inr used"
    and "getInstalledModules json_parse fs = Inr installed"
  shows "fst (run e False b json_parse fs w)
           = Inr \<lparr>toInstall = diff (filterRegistryModules b used) installed,
                  toRemove = diff installed (filterRegistryModules b used)\<rparr>
         \<and> commands_of (snd (run e False b json_parse fs w))
           = commands_of w @ map install_command (diff (filterRegistryModules b used) installed)
             @ map uninstall_command (diff installed (filterRegistryModules b used))"
  using run_eq [OF assms, of e False b w] commands_install_all_plain [of e _ w]
  by (simp add: install_all_plain commands_uninstall_all)

theorem run_attempts_every_module_witness:
  "getUsedModules (project_files [(''package.json'', ''{}''), (''index.js'', ''require('' @ [dquote] @ ''chalk'' @ [dquote] @ '')'')])
     = Inr [\<lparr>name = ''chalk'', dev = False\<rparr>]
   \<and> getInstalledModules (\<lambda>_. Some (JObject [(''dependencies'', JObject [(''lodash'', JString ''*'')])]))
       (project_files [(''package.json'', ''{}''), (''index.js'', ''require('' @ [dquote] @ ''chalk'' @ [dquote] @ '')'')])
     = Inr [\<lparr>name = ''lodash'', dev = False\<rparr>]
   \<and> commands_of (snd (run \<lparr>exec_status = \<lambda>_. 1, http_reaches = \<lambda>_. True\<rparr> False (\<lambda>_. False)
       (\<lambda>_. Some (JObject [(''dependencies'', JObject [(''lodash'', JString ''*'')])]))
       (project_files [(''package.json'', ''{}''), (''index.js'', ''require('' @ [dquote] @ ''chalk'' @ [dquote] @ '')'')]) []))
     = [''npm install chalk --save'', ''npm uninstall lodash --save'']"
proof -
  have h1: "getUsedModules (project_files [(''package.json'', ''{}''), (''index.js'', ''require('' @ [dquote] @ ''chalk'' @ [dquote] @ '')'')])
     = Inr [\<lparr>name = ''chalk'', dev = False\<rparr>]"
    by code_simp
  have h2: "getInstalledModules (\<lambda>_. Some (JObject [(''dependencies'', JObject [(''lodash'', JString ''*'')])]))
       (project_files [(''package.json'', ''{}''), (''index.js'', ''require('' @ [dquote] @ ''chalk'' @ [dquote] @ '')'')])
     = Inr [\<lparr>name = ''lodash'', dev = False\<rparr>]"
    by code_simp
  have "commands_of (snd (run \<lparr>exec_status = \<lambda>_. 1, http_reaches = \<lambda>_. True\<rparr> False (\<lambda>_. False)
       (\<lambda>_. Some (JObject [(''dependencies'', JObject [(''lodash'', JString ''*'')])]))
       (project_files [(''package.json'', ''{}''), (''index.js'', ''require('' @ [dquote] @ ''chalk'' @ [dquote] @ '')'')]) []))
     = [] @ map install_command (diff (filterRegistryModules (\<lambda>_. False) [\<lparr>name = ''chalk'', dev = False\<rparr>]) [\<lparr>name = ''lodash'', dev = False\<rparr>])
       @ map uninstall_command (diff [\<lparr>name = ''lodash'', dev = False\<rparr>] (filterRegistryModules (\<lambda>_. False) [\<lparr>name = ''chalk'', dev = False\<rparr>]))"
    using run_attempts_every_module [OF h1 h2, of "\<lparr>exec_status = \<lambda>_. 1, http_reaches = \<lambda>_. True\<rparr>" "\<lambda>_. False" "[]"]
    by simp
  also have "\<dots> = [''npm install chalk --save'', ''npm uninstall lodash --save'']"
    by code_simp
  finally show ?thesis using h1 h2 by blast
qed

text \<open>
  C11. In secure mode a run issues no \<open>npm install\<close> command at all, whatever
  the scan, the manifest, the popularity service and the network do.
\<close>

theorem run_secure_installs_nothing:
  "filter (starts_with ''npm install '') (commands_of (snd (run e True b json_parse fs w)))
     = filter (starts_with ''npm install '') (commands_of w)"
proof (cases "getUsedModules fs")
  case (Inl err)
  then show ?thesis by (simp add: run_def run_with_def module_exports_def)
next
  case (Inr used)
  show ?thesis
  proof (cases "getInstalledModules json_parse fs")
    case (Inl err)
    with Inr show ?thesis by (simp add: run_def run_with_def module_exports_def)
  next
    case (Inr installed)
    let ?ins = "diff (filterRegistryModules b used) installed"
    let ?rem = "diff installed (filterRegistryModules b used)"
    obtain res w' where ia: "install_all (installModule e True) ?ins w = (res, w')" by fastforce
    from ia have cw: "commands_of w' = commands_of w"
      using commands_install_all_secure [of e ?ins w] by simp
    have "filter (starts_with ''npm install '') (map uninstall_command ?rem) = []"
      by (simp add: filter_empty_conv not_install_uninstall)
    with cw have "filter (starts_with ''npm install '') (commands_of (uninstall_all (uninstallModule e) ?rem w'))
        = filter (starts_with ''npm install '') (commands_of w)"
      by (simp add: commands_uninstall_all)
    with cw ia run_eq [OF \<open>getUsedModules fs = Inr used\<close> Inr, of e True b w] show ?thesis
      by (cases res) auto
  qed
qed

text \<open>
  C22. When the popularity request fails in secure mode, the exception of the first
  module to install ends the run: whatever the other modules to install and the
  modules to remove, nothing after that request happens. The trace ends with the
  request, so the module's spinner is left spinning, and no uninstall runs. The
  specification asks the check to fail closed and the batch to go on.
\<close>

theorem run_secure_network_failure:
  assumes "getUsedModules fs = Inr used" and "getInstalledModules json_parse fs = Inr installed"
    and "diff (filterRegistryModules b used) installed = m # ms"
    and "\<not> http_reaches e (popularity_url ''undefined'')"
  shows "run e True b json_parse fs w =
           (Inl (NetworkError (popularity_url ''undefined'')),
            w @ [SpinnerStart (''Installing '' @ name m) Green, HttpGet (popularity_url ''undefined'')])"
proof -
  have "install_all (installModule e True) (m # ms) w =
      (Inl (NetworkError (popularity_url ''undefined'')),
       w @ [SpinnerStart (''Installing '' @ name m) Green, HttpGet (popularity_url ''undefined'')])"
    using installModule_secure_eq [of e m w] assms(4) by (simp add: Let_def)
  with run_eq [OF assms(1,2), of e True b w] assms(3) show ?thesis by (simp add: Let_def)
qed

theorem run_secure_network_failure_witness:
  "run \<lparr>exec_status = \<lambda>_. 0, http_reaches = \<lambda>_. False\<rparr> True (\<lambda>_. False)
     (\<lambda>_. Some (JObject [(''dependencies'', JObject [(''lodash'', JString ''*'')])]))
     (project_files [(''package.json'', ''{}''), (''index.js'', ''require('' @ [dquote] @ ''chalk'' @ [dquote] @ '')'')]) []
   = (Inl (NetworkError ''https://apa.npmjs.org/downloads/point/last-month/undefined''),
      [SpinnerStart ''Installing chalk'' Green,
       HttpGet ''https://apa.npmjs.org/downloads/point/last-month/undefined''])"
proof -
  let ?fs = "project_files [(''package.json'', ''{}''), (''index.js'', ''require('' @ [dquote] @ ''chalk'' @ [dquote] @ '')'')]"
  let ?jp = "\<lambda>_::text_content. Some (JObject [(''dependencies'', JObject [(''lodash'', JString ''*'')])])"
  have h1: "getUsedModules ?fs = Inr [\<lparr>name = ''chalk'', dev = False\<rparr>]" by code_simp
  have h2: "getInstalledModules ?jp ?fs = Inr [\<lparr>name = ''lodash'', dev = False\<rparr>]" by code_simp
  have h3: "diff (filterRegistryModules (\<lambda>_. False) [\<lparr>name = ''chalk'', dev = False\<rparr>])
      [\<lparr>name = ''lodash'', dev = False\<rparr>] = [\<lparr>name = ''chalk'', dev = False\<rparr>]" by code_simp
  have h4: "\<not> http_reaches \<lparr>exec_status = \<lambda>_. 0, http_reaches = \<lambda>_. False\<rparr> (popularity_url ''undefined'')"
    by simp
  from run_secure_network_failure [OF h1 h2 h3 h4, of "[]"] show ?thesis
    by (simp add: popularity_url_def)
qed

text \<open>
  C24. Nothing guards the command line: whatever string a script requires, as long as
  it is not built in and does not start with \<open>./\<close>, reaches \<open>npm install\<close>
  verbatim. The name check accepts it, the classifier keeps it, and outside secure mode
  the run installs it: a shell separator (\<open>x;touch pwned\<close>), a path into the parent
  directory (\<open>../lib/util\<close>), or the empty name of \<open>require("")\<close>, which makes the
  tool run \<open>npm install  --save\<close>.
\<close>

theorem run_installs_any_required_name:
  assumes "CHR '')'' \<notin> set n" and "\<not> list_ex is_line_terminator n"
    and "\<not> b n" and "\<not> prefix ''./'' n"
  shows "fst (run e False b (\<lambda>_. Some (JObject []))
            (project_files [(''package.json'', c), (''index.js'', require_open @ (dquote # n @ [dquote]) @ '')'')]) w)
           = Inr \<lparr>toInstall = [\<lparr>name = n, dev = False\<rparr>], toRemove = []\<rparr>
         \<and> commands_of (snd (run e False b (\<lambda>_. Some (JObject []))
            (project_files [(''package.json'', c), (''index.js'', require_open @ (dquote # n @ [dquote]) @ '')'')]) w))
           = commands_of w @ [''npm install '' @ n @ '' --save'']"
proof -
  let ?fs = "project_files [(''package.json'', c), (''index.js'', require_open @ (dquote # n @ [dquote]) @ '')'')]"
  have u: "getUsedModules ?fs = Inr [\<lparr>name = n, dev = False\<rparr>]"
    using assms(1,2) by (rule getUsedModules_single_script)
  have i: "getInstalledModules (\<lambda>_. Some (JObject [])) ?fs = Inr []"
    by (simp add: getInstalledModules_def readFile_def read_file_sync_def file_text_def project_files_def)
  have f: "filterRegistryModules b [\<lparr>name = n, dev = False\<rparr>] = [\<lparr>name = n, dev = False\<rparr>]"
    using assms(3,4) by (simp add: filterRegistryModules_filter registry_name_def)
  show ?thesis
  proof -
    have r: "run e False b (\<lambda>_. Some (JObject [])) ?fs w
        = (Inr \<lparr>toInstall = [\<lparr>name = n, dev = False\<rparr>], toRemove = []\<rparr>,
           snd (install_all (installModule e False) [\<lparr>name = n, dev = False\<rparr>] w))"
      using run_eq [OF u i, of e False b w] f install_all_plain [of e "[\<lparr>name = n, dev = False\<rparr>]" w]
      by (simp add: diff_filter names_of_def)
    show ?thesis
      using commands_install_all_plain [of e "[\<lparr>name = n, dev = False\<rparr>]" w]
      by (simp only: r fst_conv snd_conv) (simp add: install_command_def)
  qed
qed

theorem run_installs_any_required_name_witness:
  "commands_of (snd (run \<lparr>exec_status = \<lambda>_. 0, http_reaches = \<lambda>_. True\<rparr> False (\<lambda>_. False) (\<lambda>_. Some (JObject []))
      (project_files [(''package.json'', ''{}''), (''index.js'', require_open @ (dquote # ''x;touch pwned'' @ [dquote]) @ '')'')]) []))
     = [''npm install x;touch pwned --save'']
   \<and> commands_of (snd (run \<lparr>exec_status = \<lambda>_. 0, http_reaches = \<lambda>_. True\<rparr> False (\<lambda>_. False) (\<lambda>_. Some (JObject []))
      (project_files [(''package.json'', ''{}''), (''index.js'', require_open @ (dquote # ''../lib/util'' @ [dquote]) @ '')'')]) []))
     = [''npm install ../lib/util --save'']
   \<and> commands_of (snd (run \<lparr>exec_status = \<lambda>_. 0, http_reaches = \<lambda>_. True\<rparr> False (\<lambda>_. False) (\<lambda>_. Some (JObject []))
      (project_files [(''package.json'', ''{}''), (''index.js'', require_open @ (dquote # '''' @ [dquote]) @ '')'')]) []))
     = [''npm install  --save'']"
proof (intro conjI)
  have "CHR '')'' \<notin> set ''x;touch pwned''" "\<not> list_ex is_line_terminator ''x;touch pwned''"
    "\<not> (\<lambda>_. False) ''x;touch pwned''" "\<not> prefix ''./'' ''x;touch pwned''"
    by (simp_all add: is_line_terminator_def)
  from run_installs_any_required_name [OF this, of "\<lparr>exec_status = \<lambda>_. 0, http_reaches = \<lambda>_. True\<rparr>" "''{}''" "[]"]
  show "commands_of (snd (run \<lparr>exec_status = \<lambda>_. 0, http_reaches = \<lambda>_. True\<rparr> False (\<lambda>_. False) (\<lambda>_. Some (JObject []))
      (project_files [(''package.json'', ''{}''), (''index.js'', require_open @ (dquote # ''x;touch pwned'' @ [dquote]) @ '')'')]) []))
     = [''npm install x;touch pwned --save'']" by simp
next
  have "CHR '')'' \<notin> set ''../lib/util''" "\<not> list_ex is_line_terminator ''../lib/util''"
    "\<not> (\<lambda>_. False) ''../lib/util''" "\<not> prefix ''./'' ''../lib/util''"
    by (simp_all add: is_line_terminator_def)
  from run_installs_any_required_name [OF this, of "\<lparr>exec_status = \<lambda>_. 0, http_reaches = \<lambda>_. True\<rparr>" "''{}''" "[]"]
  show "commands_of (snd (run \<lparr>exec_status = \<lambda>_. 0, http_reaches = \<lambda>_. True\<rparr> False (\<lambda>_. False) (\<lambda>_. Some (JObject []))
      (project_files [(''package.json'', ''{}''), (''index.js'', require_open @ (dquote # ''../lib/util'' @ [dquote]) @ '')'')]) []))
     = [''npm install ../lib/util --save'']" by simp
next
  have "CHR '')'' \<notin> set ''''" "\<not> list_ex is_line_terminator ''''"
    "\<not> (\<lambda>_. False) ''''" "\<not> prefix ''./'' ''''"
    by simp_all
  from run_installs_any_required_name [OF this, of "\<lparr>exec_status = \<lambda>_. 0, http_reaches = \<lambda>_. True\<rparr>" "''{}''" "[]"]
  show "commands_of (snd (run \<lparr>exec_status = \<lambda>_. 0, http_reaches = \<lambda>_. True\<rparr> False (\<lambda>_. False) (\<lambda>_. Some (JObject []))
      (project_files [(''package.json'', ''{}''), (''index.js'', require_open @ (dquote # '''' @ [dquote]) @ '')'')]) []))
     = [''npm install  --save'']" by simp
qed

text \<open>
  C17. Liveness: a run that returns has stopped every spinner it started, and printed
  nothing while one was spinning; its whole trace follows the spinner protocol from
  idle to idle.
\<close>

theorem run_stops_every_spinner:
  "\<exists>seg t. snd (run e s b json_parse fs w) = w @ seg \<and> spin_run Idle seg t
     \<and> (case fst (run e s b json_parse fs w) of Inr _ \<Rightarrow> t = Idle | Inl _ \<Rightarrow> True)"
proof (cases "\<exists>used installed. getUsedModules fs = Inr used \<and> getInstalledModules json_parse fs = Inr installed")
  case False
  then have "run e s b json_parse fs w = (fst (run e s b json_parse fs w), w)
      \<and> (\<exists>err. fst (run e s b json_parse fs w) = Inl err)"
    by (auto simp: run_def run_with_def module_exports_def Let_def split: sum.splits)
  then show ?thesis by (intro exI [of _ "[]"] exI [of _ Idle]) (auto split: sum.splits)
next
  case True
  then obtain used installed where u: "getUsedModules fs = Inr used"
    and i: "getInstalledModules json_parse fs = Inr installed" by blast
  let ?ins = "diff (filterRegistryModules b used) installed"
  let ?rem = "diff installed (filterRegistryModules b used)"
  obtain seg1 t1 where w1: "snd (install_all (installModule e s) ?ins w) = w @ seg1" and r1: "spin_run Idle seg1 t1"
    and t1: "fst (install_all (installModule e s) ?ins w) = Inr () \<longrightarrow> t1 = Idle"
    using install_all_protocol [of e s ?ins w] by blast
  show ?thesis
  proof (cases "fst (install_all (installModule e s) ?ins w)")
    case (Inl err)
    with run_eq [OF u i, of e s b w] w1 have "run e s b json_parse fs w = (Inl err, w @ seg1)"
      by (cases "install_all (installModule e s) ?ins w") simp
    with r1 show ?thesis by auto
  next
    case (Inr v)
    obtain seg2 where "uninstall_all (uninstallModule e) ?rem (w @ seg1) = (w @ seg1) @ seg2" "spin_run Idle seg2 Idle"
      using uninstall_all_protocol by blast
    moreover from Inr run_eq [OF u i, of e s b w] w1
    have "run e s b json_parse fs w
        = (Inr \<lparr>toInstall = ?ins, toRemove = ?rem\<rparr>, uninstall_all (uninstallModule e) ?rem (w @ seg1))"
      by (cases "install_all (installModule e s) ?ins w") simp
    moreover from Inr t1 have "t1 = Idle" by simp
    ultimately show ?thesis using r1
      by (intro exI [of _ "seg1 @ seg2"] exI [of _ Idle]) (auto intro: spin_run_trans)
  qed
qed

text \<open>
  C15. Type: whenever a run returns, its \<open>DiffResult\<close> satisfies the invariants of
  the data model: no duplicate \<open>(name, dev)\<close> pair in either list, no name both to
  install and to remove, and nothing built in or local to install.
\<close>

theorem run_result_wf:
  "(case fst (run e s b json_parse fs w) of Inr r \<Rightarrow> wf_diff_result b r | Inl _ \<Rightarrow> True)"
proof (cases "\<exists>used installed. getUsedModules fs = Inr used \<and> getInstalledModules json_parse fs = Inr installed")
  case False
  then have "\<exists>err. fst (run e s b json_parse fs w) = Inl err"
    by (auto simp: run_def run_with_def module_exports_def Let_def split: sum.splits)
  then show ?thesis by auto
next
  case True
  then obtain used installed where u: "getUsedModules fs = Inr used"
    and i: "getInstalledModules json_parse fs = Inr installed" by blast
  from diff_result_wf [OF u i, of b] run_eq [OF u i, of e s b w] show ?thesis
    by (auto simp: Let_def split: prod.splits sum.splits)
qed

text \<open>
  C16. Bounds: outside secure mode, a run that returns executes one command per module
  it schedules, and no command twice. A name appears at most twice in the modules to
  install and at most twice in the modules to remove, once per partition. A missing
  module required from test and from production code is installed twice, first with
  \<open>--save-dev\<close> and then with \<open>--save\<close>.
\<close>

theorem run_commands_bounds:
  "case fst (run e False b json_parse fs w) of
     Inr r \<Rightarrow>
       length (drop (length (commands_of w)) (commands_of (snd (run e False b json_parse fs w))))
         = length (toInstall r) + length (toRemove r)
       \<and> distinct (drop (length (commands_of w)) (commands_of (snd (run e False b json_parse fs w))))
       \<and> (\<forall>n. length (filter (\<lambda>m. name m = n) (toInstall r)) \<le> 2
             \<and> length (filter (\<lambda>m. name m = n) (toRemove r)) \<le> 2)
   | Inl _ \<Rightarrow> True"
proof (cases "\<exists>used installed. getUsedModules fs = Inr used \<and> getInstalledModules json_parse fs = Inr installed")
  case False
  then have "\<exists>err. fst (run e False b json_parse fs w) = Inl err"
    by (auto simp: run_def run_with_def module_exports_def Let_def split: sum.splits)
  then show ?thesis by auto
next
  case True
  then obtain used installed where u: "getUsedModules fs = Inr used"
    and i: "getInstalledModules json_parse fs = Inr installed" by blast
  let ?r = "\<lparr>toInstall = diff (filterRegistryModules b used) installed,
             toRemove = diff installed (filterRegistryModules b used)\<rparr>"
  have wf: "wf_diff_result b ?r" by (rule diff_result_wf [OF u i])
  have run: "run e False b json_parse fs w
      = (Inr ?r, uninstall_all (uninstallModule e) (toRemove ?r) (snd (install_all (installModule e False) (toInstall ?r) w)))"
    using run_eq [OF u i, of e False b w] install_all_plain [of e "toInstall ?r" w] by simp
  have cmds: "drop (length (commands_of w)) (commands_of (snd (run e False b json_parse fs w)))
      = map install_command (toInstall ?r) @ map uninstall_command (toRemove ?r)"
    by (simp only: run snd_conv commands_uninstall_all commands_install_all_plain append_assoc) simp
  from wf have pi: "distinct (map (\<lambda>m. (name m, dev m)) (toInstall ?r))"
    and pr: "distinct (map (\<lambda>m. (name m, dev m)) (toRemove ?r))"
    by (simp_all only: wf_diff_result_def)
  have "distinct (map install_command (toInstall ?r))"
    using pi by (rule distinct_map_by) (simp add: install_command_eq_iff)
  moreover have "distinct (map uninstall_command (toRemove ?r))"
    using pr by (rule distinct_map_by) (simp add: uninstall_command_eq_iff)
  ultimately
  have "distinct (map install_command (toInstall ?r) @ map uninstall_command (toRemove ?r))"
    by (auto simp: install_ne_uninstall_command)
  moreover have "\<forall>n. length (filter (\<lambda>m. name m = n) (toInstall ?r)) \<le> 2
      \<and> length (filter (\<lambda>m. name m = n) (toRemove ?r)) \<le> 2"
    using name_count_le_2 [OF pi] name_count_le_2 [OF pr] by (intro allI conjI)
  moreover have "length (map install_command (toInstall ?r) @ map uninstall_command (toRemove ?r))
      = length (toInstall ?r) + length (toRemove ?r)" by simp
  moreover have fr: "fst (run e False b json_parse fs w) = Inr ?r" by (simp only: run fst_conv)
  ultimately show ?thesis unfolding fr sum.case cmds by (intro conjI)
qed

text \<open>
  C27. The classifier runs on the used modules only, and the declared modules are
  compared by name with what is left. A declared package named like a built-in module
  (the \<open>events\<close> polyfill) is therefore always scheduled for removal and
  uninstalled, even when a script requires it.
\<close>

theorem run_uninstalls_declared_builtin:
  assumes "getUsedModules fs = Inr used" and "getInstalledModules json_parse fs = Inr installed"
    and "m \<in> set installed" and "b (name m)"
  shows "\<exists>r. fst (run e False b json_parse fs w) = Inr r \<and> m \<in> set (toRemove r)
           \<and> uninstall_command m \<in> set (commands_of (snd (run e False b json_parse fs w)))"
proof -
  let ?used = "filterRegistryModules b used"
  let ?r = "\<lparr>toInstall = diff ?used installed, toRemove = diff installed ?used\<rparr>"
  have rm: "m \<in> set (diff installed ?used)"
    using assms(3,4) by (auto simp: diff_filter names_of_def filterRegistryModules_filter registry_name_def)
  have "run e False b json_parse fs w
      = (Inr ?r, uninstall_all (uninstallModule e) (diff installed ?used) (snd (install_all (installModule e False) (diff ?used installed) w)))"
    using run_eq [OF assms(1,2), of e False b w] install_all_plain [of e "diff ?used installed" w] by simp
  with rm show ?thesis by (simp add: commands_uninstall_all)
qed

theorem run_uninstalls_declared_builtin_witness:
  "\<exists>r. fst (run \<lparr>exec_status = \<lambda>_. 0, http_reaches = \<lambda>_. True\<rparr> False (\<lambda>n. n = ''events'')
     (\<lambda>_. Some (JObject [(''dependencies'', JObject [(''events'', JString ''^3.3.0'')])]))
     (project_files [(''package.json'', ''{}''), (''index.js'', ''require('' @ [dquote] @ ''events'' @ [dquote] @ '')'')]) [])
     = Inr r \<and> \<lparr>name = ''events'', dev = False\<rparr> \<in> set (toRemove r)
   \<and> ''npm uninstall events --save'' \<in> set (commands_of (snd (run \<lparr>exec_status = \<lambda>_. 0, http_reaches = \<lambda>_. True\<rparr> False (\<lambda>n. n = ''events'')
     (\<lambda>_. Some (JObject [(''dependencies'', JObject [(''events'', JString ''^3.3.0'')])]))
     (project_files [(''package.json'', ''{}''), (''index.js'', ''require('' @ [dquote] @ ''events'' @ [dquote] @ '')'')]) [])))"
proof -
  let ?fs = "project_files [(''package.json'', ''{}''), (''index.js'', ''require('' @ [dquote] @ ''events'' @ [dquote] @ '')'')]"
  let ?jp = "\<lambda>_::text_content. Some (JObject [(''dependencies'', JObject [(''events'', JString ''^3.3.0'')])])"
  have h1: "getUsedModules ?fs = Inr [\<lparr>name = ''events'', dev = False\<rparr>]" by code_simp
  have h2: "getInstalledModules ?jp ?fs = Inr [\<lparr>name = ''events'', dev = False\<rparr>]" by code_simp
  have h3: "\<lparr>name = ''events'', dev = False\<rparr> \<in> set [\<lparr>name = ''events'', dev = False\<rparr>]" by simp
  have h4: "(\<lambda>n. n = ''events'') (name \<lparr>name = ''events'', dev = False\<rparr>)" by simp
  from run_uninstalls_declared_builtin [where b = "\<lambda>n. n = ''events''" and e = "\<lparr>exec_status = \<lambda>_. 0, http_reaches = \<lambda>_. True\<rparr>"
      and w = "[]", OF h1 h2 h3 h4]
  show ?thesis by (simp add: uninstall_command_def)
qed

text \<open>
  C26. The glob lists directories whose name ends in \<open>.js\<close> (a vendored
  \<open>chart.js\<close> checkout) like scripts, and reading one throws. When a listed path
  is not a readable file, the run throws the read error of the first such path in
  listing order. It executes nothing and leaves the trace as it was. The
  specification asks unreadable sources to be skipped and logged.
\<close>

theorem run_unreadable_path:
  assumes "getFiles fs = ps @ p # qs" and "\<forall>x\<in>set ps. file_text fs x \<noteq> None"
    and "file_text fs p = None"
  shows "run e s b json_parse fs w = (Inl (ReadError p), w)"
proof -
  from assms(2,3) have "find (\<lambda>x. file_text fs x = None) (ps @ p # qs) = Some p"
    by (induction ps) auto
  with assms(1) have "getUsedModules fs = Inl (ReadError p)"
    by (simp add: getUsedModules_def collect_used_eq)
  then show ?thesis by (simp add: run_def run_with_def module_exports_def)
qed

theorem run_unreadable_path_witness:
  "run \<lparr>exec_status = \<lambda>_. 0, http_reaches = \<lambda>_. True\<rparr> False (\<lambda>_. False) (\<lambda>_. Some (JObject []))
     \<lparr>entries = [(''package.json'', File ''{}''), (''index.js'', File (''require('' @ [dquote] @ ''lodash'' @ [dquote] @ '')'')),
                 (''vendor/chart.js'', Dir), (''vendor/chart.js/chart.min.js'', File '''')],
      alphasort = default\<rparr> []
   = (Inl (ReadError ''vendor/chart.js''), [])"
proof -
  let ?fs = "\<lparr>entries = [(''package.json'', File ''{}''), (''index.js'', File (''require('' @ [dquote] @ ''lodash'' @ [dquote] @ '')'')),
                 (''vendor/chart.js'', Dir), (''vendor/chart.js/chart.min.js'', File '''')],
      alphasort = default\<rparr>"
  have h1: "getFiles ?fs = [''index.js''] @ ''vendor/chart.js'' # [''vendor/chart.js/chart.min.js'']"
    by code_simp
  have h2: "\<forall>x\<in>set [''index.js'']. file_text ?fs x \<noteq> None" by (simp add: file_text_def)
  have h3: "file_text ?fs ''vendor/chart.js'' = None" by (simp add: file_text_def)
  from run_unreadable_path [OF h1 h2 h3] show ?thesis .
qed

text \<open>
  C28. A project in which the glob finds no script (its sources are TypeScript, or
  modules with the \<open>.mjs\<close> extension) has no used modules: the run uninstalls every
  dependency the manifest declares, in both sections, and installs nothing.
\<close>

theorem run_without_scripts_uninstalls_all:
  assumes "getFiles fs = []" and "getInstalledModules json_parse fs = Inr installed"
  shows "fst (run e s b json_parse fs w) = Inr \<lparr>toInstall = [], toRemove = installed\<rparr>
         \<and> commands_of (snd (run e s b json_parse fs w)) = commands_of w @ map uninstall_command installed"
proof -
  have u: "getUsedModules fs = Inr []"
    using assms(1) by (simp add: getUsedModules_def deduplicate_def deduplicateSimilarModules_def)
  have f: "filterRegistryModules b [] = []" by (simp add: filterRegistryModules_filter)
  have "run e s b json_parse fs w
      = (Inr \<lparr>toInstall = [], toRemove = installed\<rparr>, uninstall_all (uninstallModule e) installed w)"
    using run_eq [OF u assms(2), of e s b w] f by (simp add: diff_filter names_of_def)
  then show ?thesis by (simp add: commands_uninstall_all)
qed

theorem run_without_scripts_uninstalls_all_witness:
  "commands_of (snd (run \<lparr>exec_status = \<lambda>_. 0, http_reaches = \<lambda>_. True\<rparr> False (\<lambda>_. False)
     (\<lambda>_. Some (JObject [(''dependencies'', JObject [(''lodash'', JString ''^4.17.21'')]),
                          (''devDependencies'', JObject [(''typescript'', JString ''^5.0.0'')])]))
     (project_files [(''package.json'', ''{}''), (''src/index.ts'', ''import _ from 'lodash';'')]) []))
   = [''npm uninstall lodash --save'', ''npm uninstall typescript --save-dev'']"
proof -
  have h1: "getFiles (project_files [(''package.json'', ''{}''), (''src/index.ts'', ''import _ from 'lodash';'')]) = []"
    by code_simp
  have h2: "getInstalledModules
      (\<lambda>_. Some (JObject [(''dependencies'', JObject [(''lodash'', JString ''^4.17.21'')]),
                          (''devDependencies'', JObject [(''typescript'', JString ''^5.0.0'')])]))
      (project_files [(''package.json'', ''{}''), (''src/index.ts'', ''import _ from 'lodash';'')])
      = Inr [\<lparr>name = ''lodash'', dev = False\<rparr>, \<lparr>name = ''typescript'', dev = True\<rparr>]"
    by code_simp
  from run_without_scripts_uninstalls_all [OF h1 h2, of "\<lparr>exec_status = \<lambda>_. 0, http_reaches = \<lambda>_. True\<rparr>" False "\<lambda>_. False" "[]"]
  show ?thesis by (simp add: uninstall_command_def)
qed

end
